theory Spec2Isabelle
  imports Complex_Main
begin

section \<open>The geometry calculator: shapes and the shape collection\<close>

text \<open>
  A shallow embedding of \<^verbatim>\<open>04-cpp-geometry-calculator\<close>: the three shape classes
  (\<^verbatim>\<open>src/shapes/circle.cpp\<close>, \<^verbatim>\<open>rectangle.cpp\<close>, \<^verbatim>\<open>triangle.cpp\<close>) and the
  owning collection (\<^verbatim>\<open>src/geometry_calculator.cpp\<close>).

  The member names of the source end in an underscore (\<^verbatim>\<open>radius_\<close>, \<^verbatim>\<open>shapes_\<close>), which
  is not a legal name here: the record fields drop it. The methods that every class
  overrides (\<^verbatim>\<open>area\<close>, \<^verbatim>\<open>perimeter\<close>, \<^verbatim>\<open>name\<close>, \<^verbatim>\<open>isValid\<close>) carry the class name as a
  prefix; the unprefixed names are the virtual calls through \<^verbatim>\<open>Shape\<close>.
\<close>

subsection \<open>The type \<^verbatim>\<open>double\<close>\<close>

text \<open>
  Every parameter and attribute of the program is a C++ \<^verbatim>\<open>double\<close>, an IEEE 754 binary64
  number: a finite number, one of the two infinities, or not-a-number.
\<close>

datatype double = NaN | MInf | Val real | PInf

text \<open>
  Rounding to nearest, ties to even. A finite binary64 number is \<open>m * 2 ^ k\<close> with an
  integer \<open>|m| < 2 ^ 53\<close> and \<open>- 1074 \<le> k\<close>, of magnitude below \<open>2 ^ 1024\<close>. The numbers next
  to a real \<open>x\<close> are the multiples of \<open>ulp x\<close>, which is \<open>2 ^ (e - 52)\<close> where \<open>2 ^ e \<le> |x| < 2 ^ (e + 1)\<close>
  and \<open>e\<close> is not taken below \<open>- 1022\<close> (the subnormal range). \<open>rnd64 x\<close> is the nearest
  multiple, the one with the even multiplier when two are equally near, and an infinity
  when that multiple has magnitude \<open>2 ^ 1024\<close> or more. Every arithmetic operation and
  \<^verbatim>\<open>std::sqrt\<close> return the rounded exact result, and a decimal literal denotes the rounded
  value of the decimal.

  The sign of a zero is not modelled (\<open>Val 0\<close> stands for both zeros): the program
  compares zeros, which are equal whatever their sign, and never divides by a computed
  value. The payload of a \<open>NaN\<close> is not modelled either.
\<close>

definition round_half_even :: "real \<Rightarrow> int" where
  "round_half_even r =
     (let f = \<lfloor>r\<rfloor> in
      if r - of_int f < 1 / 2 then f
      else if 1 / 2 < r - of_int f then f + 1
      else if even f then f else f + 1)"

definition exponent :: "real \<Rightarrow> int" where
  "exponent x = max (- 1022) \<lfloor>log 2 \<bar>x\<bar>\<rfloor>"

definition ulp :: "real \<Rightarrow> real" where
  "ulp x = 2 powi (exponent x - 52)"

definition rnd64 :: "real \<Rightarrow> double" where
  "rnd64 x =
     (if x = 0 then Val 0
      else let y = of_int (round_half_even (x / ulp x)) * ulp x in
           if 2 ^ 1024 \<le> \<bar>y\<bar> then (if 0 < x then PInf else MInf) else Val y)"

text \<open>
  Two notions for the proofs about rounding. \<open>rU x\<close> is the multiple of \<open>ulp x\<close> that
  \<open>rnd64 x\<close> chooses, before the test for overflow. \<open>on_grid d\<close> says that \<open>d\<close> is a
  multiple of its own unit in the last place: a binary64 number, but for the range.
\<close>

definition rU :: "real \<Rightarrow> real" where
  "rU x = of_int (round_half_even (x / ulp x)) * ulp x"

definition on_grid :: "real \<Rightarrow> bool" where
  "on_grid d = (\<exists>m. d = of_int m * ulp d)"

text \<open>
  The comparisons are exact. Every comparison with \<open>NaN\<close> is false, so \<^verbatim>\<open>x <= 0\<close> and
  \<^verbatim>\<open>x > 0\<close> are both false on \<open>NaN\<close>.
\<close>

fun dle :: "double \<Rightarrow> double \<Rightarrow> bool" where
  "dle NaN y = False"
| "dle x NaN = False"
| "dle MInf y = True"
| "dle x PInf = True"
| "dle PInf y = False"
| "dle x MInf = False"
| "dle (Val a) (Val b) = (a \<le> b)"

fun dlt :: "double \<Rightarrow> double \<Rightarrow> bool" where
  "dlt NaN y = False"
| "dlt x NaN = False"
| "dlt PInf y = False"
| "dlt x MInf = False"
| "dlt MInf y = True"
| "dlt x PInf = True"
| "dlt (Val a) (Val b) = (a < b)"

fun dgt :: "double \<Rightarrow> double \<Rightarrow> bool" where
  "dgt x y = dlt y x"

text \<open>
  Arithmetic. An operation on \<open>NaN\<close> gives \<open>NaN\<close>; so do \<open>\<infinity> - \<infinity>\<close>, \<open>\<infinity> * 0\<close>, \<open>\<infinity> / \<infinity>\<close>
  and \<open>0 / 0\<close>.
\<close>

fun dadd :: "double \<Rightarrow> double \<Rightarrow> double" where
  "dadd NaN y = NaN"
| "dadd x NaN = NaN"
| "dadd PInf MInf = NaN"
| "dadd MInf PInf = NaN"
| "dadd PInf y = PInf"
| "dadd x PInf = PInf"
| "dadd MInf y = MInf"
| "dadd x MInf = MInf"
| "dadd (Val a) (Val b) = rnd64 (a + b)"

fun dsub :: "double \<Rightarrow> double \<Rightarrow> double" where
  "dsub NaN y = NaN"
| "dsub x NaN = NaN"
| "dsub PInf PInf = NaN"
| "dsub MInf MInf = NaN"
| "dsub PInf y = PInf"
| "dsub x PInf = MInf"
| "dsub MInf y = MInf"
| "dsub x MInf = PInf"
| "dsub (Val a) (Val b) = rnd64 (a - b)"

fun dmul :: "double \<Rightarrow> double \<Rightarrow> double" where
  "dmul NaN y = NaN"
| "dmul x NaN = NaN"
| "dmul PInf PInf = PInf"
| "dmul PInf MInf = MInf"
| "dmul MInf PInf = MInf"
| "dmul MInf MInf = PInf"
| "dmul PInf (Val b) = (if b = 0 then NaN else if 0 < b then PInf else MInf)"
| "dmul MInf (Val b) = (if b = 0 then NaN else if 0 < b then MInf else PInf)"
| "dmul (Val a) PInf = (if a = 0 then NaN else if 0 < a then PInf else MInf)"
| "dmul (Val a) MInf = (if a = 0 then NaN else if 0 < a then MInf else PInf)"
| "dmul (Val a) (Val b) = rnd64 (a * b)"

text \<open>
  The only divisor in the program is the literal \<^verbatim>\<open>2.0\<close>. A zero divisor is taken as the
  positive zero.
\<close>

fun ddiv :: "double \<Rightarrow> double \<Rightarrow> double" where
  "ddiv NaN y = NaN"
| "ddiv x NaN = NaN"
| "ddiv PInf PInf = NaN"
| "ddiv PInf MInf = NaN"
| "ddiv MInf PInf = NaN"
| "ddiv MInf MInf = NaN"
| "ddiv PInf (Val b) = (if 0 \<le> b then PInf else MInf)"
| "ddiv MInf (Val b) = (if 0 \<le> b then MInf else PInf)"
| "ddiv (Val a) PInf = Val 0"
| "ddiv (Val a) MInf = Val 0"
| "ddiv (Val a) (Val b) =
     (if b = 0 then (if a = 0 then NaN else if 0 < a then PInf else MInf)
      else rnd64 (a / b))"

fun dabs :: "double \<Rightarrow> double" where
  "dabs NaN = NaN"
| "dabs MInf = PInf"
| "dabs PInf = PInf"
| "dabs (Val a) = Val \<bar>a\<bar>"

fun dsqrt :: "double \<Rightarrow> double" where
  "dsqrt NaN = NaN"
| "dsqrt MInf = NaN"
| "dsqrt PInf = PInf"
| "dsqrt (Val a) = (if a < 0 then NaN else rnd64 (sqrt a))"

text \<open>
  Modelled from the spec: \<^verbatim>\<open>M_PI\<close> is a macro of \<^verbatim>\<open><cmath>\<close>, not of this repository; the
  spec reads it as \<open>\<pi>\<close>. The macro is the decimal literal \<^verbatim>\<open>3.14159265358979323846\<close>,
  and a literal denotes its rounded value.
\<close>

definition M_PI :: double where
  "M_PI = rnd64 (314159265358979323846 / 10 ^ 20)"

subsection \<open>Errors\<close>

text \<open>
  The only exception the program throws is \<^verbatim>\<open>std::invalid_argument\<close> with a message; the
  specification calls it \<^verbatim>\<open>InvalidParameter\<close>. A constructor returns the exception or the
  new object. A setter returns its outcome together with the object as it is after the
  call, since the object outlives a throw.
\<close>

datatype error = invalid_argument string

subsection \<open>Circle\<close>

record Circle =
  radius :: double

definition Circle_new :: "double \<Rightarrow> error + Circle" where
  "Circle_new r =
     (if dle r (Val 0) then Inl (invalid_argument ''Circle radius must be positive'')
      else Inr \<lparr>radius = r\<rparr>)"

definition Circle_setRadius :: "Circle \<Rightarrow> double \<Rightarrow> (error + unit) \<times> Circle" where
  "Circle_setRadius c r =
     (if dle r (Val 0) then (Inl (invalid_argument ''Circle radius must be positive''), c)
      else (Inr (), c\<lparr>radius := r\<rparr>))"

definition Circle_area :: "Circle \<Rightarrow> double" where
  "Circle_area c = dmul (dmul M_PI (radius c)) (radius c)"

definition Circle_perimeter :: "Circle \<Rightarrow> double" where
  "Circle_perimeter c = dmul (dmul (Val 2) M_PI) (radius c)"

definition Circle_name :: "Circle \<Rightarrow> string" where
  "Circle_name c = ''Circle''"

definition Circle_isValid :: "Circle \<Rightarrow> bool" where
  "Circle_isValid c = dgt (radius c) (Val 0)"

subsection \<open>Rectangle\<close>

record Rectangle =
  width :: double
  height :: double

definition Rectangle_new :: "double \<Rightarrow> double \<Rightarrow> error + Rectangle" where
  "Rectangle_new w h =
     (if dle w (Val 0) \<or> dle h (Val 0)
      then Inl (invalid_argument ''Rectangle dimensions must be positive'')
      else Inr \<lparr>width = w, height = h\<rparr>)"

definition Rectangle_setDimensions ::
    "Rectangle \<Rightarrow> double \<Rightarrow> double \<Rightarrow> (error + unit) \<times> Rectangle" where
  "Rectangle_setDimensions r w h =
     (if dle w (Val 0) \<or> dle h (Val 0)
      then (Inl (invalid_argument ''Rectangle dimensions must be positive''), r)
      else (Inr (), r\<lparr>width := w, height := h\<rparr>))"

definition Rectangle_area :: "Rectangle \<Rightarrow> double" where
  "Rectangle_area r = dmul (width r) (height r)"

definition Rectangle_perimeter :: "Rectangle \<Rightarrow> double" where
  "Rectangle_perimeter r = dmul (Val 2) (dadd (width r) (height r))"

definition Rectangle_name :: "Rectangle \<Rightarrow> string" where
  "Rectangle_name r = ''Rectangle''"

definition Rectangle_isValid :: "Rectangle \<Rightarrow> bool" where
  "Rectangle_isValid r = (dgt (width r) (Val 0) \<and> dgt (height r) (Val 0))"

subsection \<open>Triangle\<close>

record Triangle =
  side_a :: double
  side_b :: double
  side_c :: double

definition satisfiesTriangleInequality :: "Triangle \<Rightarrow> bool" where
  "satisfiesTriangleInequality t =
     (dgt (dadd (side_a t) (side_b t)) (side_c t) \<and>
      dgt (dadd (side_b t) (side_c t)) (side_a t) \<and>
      dgt (dadd (side_a t) (side_c t)) (side_b t))"

text \<open>
  The constructor initialises the members first and then calls
  \<^verbatim>\<open>satisfiesTriangleInequality()\<close> on them; the setter repeats the test on its arguments
  with the comparisons turned round (\<^verbatim>\<open><=\<close> in place of a negated \<^verbatim>\<open>>\<close>).
\<close>

definition Triangle_new :: "double \<Rightarrow> double \<Rightarrow> double \<Rightarrow> error + Triangle" where
  "Triangle_new a b c =
     (let t = \<lparr>side_a = a, side_b = b, side_c = c\<rparr> in
      if dle a (Val 0) \<or> dle b (Val 0) \<or> dle c (Val 0)
      then Inl (invalid_argument ''Triangle sides must be positive'')
      else if \<not> satisfiesTriangleInequality t
      then Inl (invalid_argument ''Triangle inequality not satisfied'')
      else Inr t)"

definition sides :: "Triangle \<Rightarrow> double \<times> double \<times> double" where
  "sides t = (side_a t, side_b t, side_c t)"

definition Triangle_setSides ::
    "Triangle \<Rightarrow> double \<Rightarrow> double \<Rightarrow> double \<Rightarrow> (error + unit) \<times> Triangle" where
  "Triangle_setSides t a b c =
     (if dle a (Val 0) \<or> dle b (Val 0) \<or> dle c (Val 0)
      then (Inl (invalid_argument ''Triangle sides must be positive''), t)
      else if dle (dadd a b) c \<or> dle (dadd b c) a \<or> dle (dadd a c) b
      then (Inl (invalid_argument ''Triangle inequality not satisfied''), t)
      else (Inr (), t\<lparr>side_a := a, side_b := b, side_c := c\<rparr>))"

text \<open>The literal \<^verbatim>\<open>1e-9\<close>.\<close>

definition epsilon :: double where
  "epsilon = rnd64 (1 / 10 ^ 9)"

definition isEquilateral :: "Triangle \<Rightarrow> bool" where
  "isEquilateral t =
     (dlt (dabs (dsub (side_a t) (side_b t))) epsilon \<and>
      dlt (dabs (dsub (side_b t) (side_c t))) epsilon)"

definition isIsosceles :: "Triangle \<Rightarrow> bool" where
  "isIsosceles t =
     (dlt (dabs (dsub (side_a t) (side_b t))) epsilon \<or>
      dlt (dabs (dsub (side_b t) (side_c t))) epsilon \<or>
      dlt (dabs (dsub (side_a t) (side_c t))) epsilon)"

definition Triangle_perimeter :: "Triangle \<Rightarrow> double" where
  "Triangle_perimeter t = dadd (dadd (side_a t) (side_b t)) (side_c t)"

text \<open>
  \<open>heron_radicand\<close> is the argument that \<^verbatim>\<open>Triangle::area\<close> passes to \<^verbatim>\<open>std::sqrt\<close>; it
  has a name here so that a theorem can speak about it.
\<close>

definition heron_radicand :: "Triangle \<Rightarrow> double" where
  "heron_radicand t =
     (let s = ddiv (Triangle_perimeter t) (Val 2) in
      dmul (dmul (dmul s (dsub s (side_a t))) (dsub s (side_b t))) (dsub s (side_c t)))"

definition Triangle_area :: "Triangle \<Rightarrow> double" where
  "Triangle_area t = dsqrt (heron_radicand t)"

definition Triangle_name :: "Triangle \<Rightarrow> string" where
  "Triangle_name t =
     (if isEquilateral t then ''Equilateral Triangle''
      else if isIsosceles t then ''Isosceles Triangle''
      else ''Scalene Triangle'')"

definition Triangle_isValid :: "Triangle \<Rightarrow> bool" where
  "Triangle_isValid t =
     (dgt (side_a t) (Val 0) \<and> dgt (side_b t) (Val 0) \<and> dgt (side_c t) (Val 0) \<and>
      satisfiesTriangleInequality t)"

subsection \<open>The abstract class \<^verbatim>\<open>Shape\<close> and its virtual calls\<close>

datatype Shape = ACircle Circle | ARectangle Rectangle | ATriangle Triangle

fun area :: "Shape \<Rightarrow> double" where
  "area (ACircle c) = Circle_area c"
| "area (ARectangle r) = Rectangle_area r"
| "area (ATriangle t) = Triangle_area t"

fun perimeter :: "Shape \<Rightarrow> double" where
  "perimeter (ACircle c) = Circle_perimeter c"
| "perimeter (ARectangle r) = Rectangle_perimeter r"
| "perimeter (ATriangle t) = Triangle_perimeter t"

fun name :: "Shape \<Rightarrow> string" where
  "name (ACircle c) = Circle_name c"
| "name (ARectangle r) = Rectangle_name r"
| "name (ATriangle t) = Triangle_name t"

fun isValid :: "Shape \<Rightarrow> bool" where
  "isValid (ACircle c) = Circle_isValid c"
| "isValid (ARectangle r) = Rectangle_isValid r"
| "isValid (ATriangle t) = Triangle_isValid t"

subsection \<open>GeometryCalculator\<close>

text \<open>
  The calculator owns a \<^verbatim>\<open>std::vector<std::unique_ptr<Shape>>\<close>. \<^verbatim>\<open>addShape\<close> takes a
  \<^verbatim>\<open>unique_ptr\<close>, which may be null: a \<open>Shape option\<close>. \<^verbatim>\<open>getShape\<close> returns a pointer to
  const that is null out of range: again an option. An index is a \<^verbatim>\<open>size_t\<close>; it is only
  compared with the size, never computed with, and is a natural number here. The two
  totals are the source's loops, a left fold from \<^verbatim>\<open>0.0\<close>. \<^verbatim>\<open>getShapesInfo\<close> formats
  doubles as text and is left out.
\<close>

record GeometryCalculator =
  shapes :: "Shape list"

definition empty_calculator :: GeometryCalculator where
  "empty_calculator = \<lparr>shapes = []\<rparr>"

definition addShape :: "GeometryCalculator \<Rightarrow> Shape option \<Rightarrow> GeometryCalculator" where
  "addShape g shape =
     (case shape of
        None \<Rightarrow> g
      | Some s \<Rightarrow> if isValid s then g\<lparr>shapes := shapes g @ [s]\<rparr> else g)"

definition shapeCount :: "GeometryCalculator \<Rightarrow> nat" where
  "shapeCount g = length (shapes g)"

definition totalArea :: "GeometryCalculator \<Rightarrow> double" where
  "totalArea g = foldl (\<lambda>total shape. dadd total (area shape)) (Val 0) (shapes g)"

definition totalPerimeter :: "GeometryCalculator \<Rightarrow> double" where
  "totalPerimeter g = foldl (\<lambda>total shape. dadd total (perimeter shape)) (Val 0) (shapes g)"

definition clear :: "GeometryCalculator \<Rightarrow> GeometryCalculator" where
  "clear g = g\<lparr>shapes := []\<rparr>"

definition getShape :: "GeometryCalculator \<Rightarrow> nat \<Rightarrow> Shape option" where
  "getShape g index = (if index \<ge> length (shapes g) then None else Some (shapes g ! index))"

subsection \<open>The specification's wording\<close>

text \<open>
  Definitions that follow the words of the specification and not the code, for
  comparison with the code. The first: all three sides are equal within the
  tolerance, pair by pair.
\<close>

definition spec_all_sides_equal_within_epsilon :: "Triangle \<Rightarrow> bool" where
  "spec_all_sides_equal_within_epsilon t =
     (dlt (dabs (dsub (side_a t) (side_b t))) epsilon \<and>
      dlt (dabs (dsub (side_b t) (side_c t))) epsilon \<and>
      dlt (dabs (dsub (side_a t) (side_c t))) epsilon)"

text \<open>
  The second: the sum of a sequence of doubles taken in order. The sum of no terms is
  \<open>0\<close>, and the sum of the first \<open>n + 1\<close> terms is the sum of the first \<open>n\<close> terms plus the
  next term.
\<close>

fun sum_first :: "nat \<Rightarrow> double list \<Rightarrow> double" where
  "sum_first 0 xs = Val 0"
| "sum_first (Suc n) xs = dadd (sum_first n xs) (xs ! n)"

definition spec_sum_in_order :: "double list \<Rightarrow> double" where
  "spec_sum_in_order xs = sum_first (length xs) xs"

text \<open>
  The third: a real number is \<open>exact\<close> when it is a binary64 number, that is when
  rounding leaves it as it is. \<open>heron_exact a b c\<close> says that no operation of
  \<^verbatim>\<open>Triangle::isValid\<close> and of the radicand of \<^verbatim>\<open>Triangle::area\<close> rounds or overflows on the
  sides \<open>a\<close>, \<open>b\<close>, \<open>c\<close>: every intermediate result is exact.
\<close>

definition exact :: "real \<Rightarrow> bool" where
  "exact x = (rnd64 x = Val x)"

definition heron_exact :: "real \<Rightarrow> real \<Rightarrow> real \<Rightarrow> bool" where
  "heron_exact a b c =
     (let s = (a + b + c) / 2 in
      exact (a + b) \<and> exact (b + c) \<and> exact (a + c) \<and> exact (a + b + c) \<and> exact s \<and>
      exact (s - a) \<and> exact (s - b) \<and> exact (s - c) \<and>
      exact (s * (s - a)) \<and> exact (s * (s - a) * (s - b)) \<and>
      exact (s * (s - a) * (s - b) * (s - c)))"

section \<open>Properties\<close>

subsection \<open>Rounding\<close>

lemma round_half_even_of_int: "round_half_even (of_int j) = j"
  by (simp add: round_half_even_def)

lemma two_powr_int: "2 powr (real_of_int e) = 2 powi e"
  by (simp add: powr_real_of_int')

lemma two_powr_int_Suc: "2 powr (real_of_int e + 1) = 2 powi (e + 1)"
  using two_powr_int [of "e + 1"] by simp

lemma floor_log2_lower:
  assumes "x \<noteq> 0"
  shows "2 powi \<lfloor>log 2 \<bar>x\<bar>\<rfloor> \<le> \<bar>x\<bar>"
proof -
  have pos: "0 < \<bar>x\<bar>" using assms by simp
  have "2 powr (of_int \<lfloor>log 2 \<bar>x\<bar>\<rfloor>) \<le> \<bar>x\<bar> \<and> \<bar>x\<bar> < 2 powr (of_int (\<lfloor>log 2 \<bar>x\<bar>\<rfloor> + 1))"
    using floor_log_eq_powr_iff [of "\<bar>x\<bar>" 2 "\<lfloor>log 2 \<bar>x\<bar>\<rfloor>"] pos by simp
  then show ?thesis by (simp add: two_powr_int)
qed

lemma floor_log2_eq:
  assumes "2 powi e \<le> \<bar>x\<bar>" "\<bar>x\<bar> < 2 powi (e + 1)"
  shows "\<lfloor>log 2 \<bar>x\<bar>\<rfloor> = e"
proof -
  have "(0::real) < 2 powi e" by simp
  with assms(1) have pos: "0 < \<bar>x\<bar>" by linarith
  have "2 powr (of_int e) \<le> \<bar>x\<bar> \<and> \<bar>x\<bar> < 2 powr (of_int (e + 1))"
    using assms by (simp add: two_powr_int two_powr_int_Suc)
  then show ?thesis
    using floor_log_eq_powr_iff [of "\<bar>x\<bar>" 2 e] pos by simp
qed

lemma exponent_eq:
  assumes "2 powi e \<le> \<bar>x\<bar>" "\<bar>x\<bar> < 2 powi (e + 1)"
  shows "exponent x = max (- 1022) e"
  using floor_log2_eq [OF assms] by (simp add: exponent_def)

text \<open>How to compute \<open>rnd64\<close> at a number whose binary exponent \<open>e\<close> is known.\<close>

lemma rnd64_at_exponent:
  assumes "2 powi e \<le> \<bar>x\<bar>" "\<bar>x\<bar> < 2 powi (e + 1)" "- 1022 \<le> e"
  shows "rnd64 x =
     (if 2 ^ 1024 \<le> \<bar>real_of_int (round_half_even (x / 2 powi (e - 52))) * 2 powi (e - 52)\<bar>
      then (if 0 < x then PInf else MInf)
      else Val (of_int (round_half_even (x / 2 powi (e - 52))) * 2 powi (e - 52)))"
proof -
  have "(0::real) < 2 powi e" by simp
  with assms(1) have "0 < \<bar>x\<bar>" by linarith
  then have "x \<noteq> 0" by simp
  moreover have "ulp x = 2 powi (e - 52)"
    using exponent_eq [OF assms(1,2)] assms(3) by (simp add: ulp_def)
  ultimately show ?thesis by (simp add: rnd64_def Let_def)
qed

lemma exponent_le:
  assumes "x = of_int m * 2 powi k" "m \<noteq> 0" "\<bar>m\<bar> < 2 ^ 53" "- 1074 \<le> k"
  shows "exponent x - 52 \<le> k"
proof -
  have x0: "x \<noteq> 0" using assms by simp
  let ?E = "\<lfloor>log 2 \<bar>x\<bar>\<rfloor>"
  have "2 powi ?E \<le> \<bar>x\<bar>" by (rule floor_log2_lower [OF x0])
  also have "\<bar>x\<bar> = \<bar>of_int m\<bar> * 2 powi k" using assms(1) by (simp add: abs_mult)
  also have "\<dots> < 2 ^ 53 * 2 powi k"
  proof -
    have "\<bar>real_of_int m\<bar> < 2 ^ 53"
      using assms(3) by (metis of_int_abs of_int_less_numeral_power_cancel_iff)
    then show ?thesis by simp
  qed
  also have "\<dots> = (2::real) powi (53 + k)" by (simp add: power_int_add)
  finally have "(2::real) powi ?E < 2 powi (53 + k)" .
  then have "?E < 53 + k"
    using power_int_increasing [of "53 + k" ?E "2::real"] by (cases "?E < 53 + k") simp_all
  then show ?thesis using assms(4) by (simp add: exponent_def)
qed

text \<open>A binary64 number rounds to itself.\<close>

lemma rnd64_representable:
  assumes "\<bar>m\<bar> < 2 ^ 53" "- 1074 \<le> k" "\<bar>of_int m * 2 powi k\<bar> < (2::real) ^ 1024"
  shows "rnd64 (of_int m * 2 powi k) = Val (of_int m * 2 powi k)"
proof (cases "m = 0")
  case True
  then show ?thesis by (simp add: rnd64_def)
next
  case False
  let ?x = "of_int m * 2 powi k :: real"
  have x0: "?x \<noteq> 0" using False by simp
  have le: "exponent ?x - 52 \<le> k"
    by (rule exponent_le [OF refl False assms(1,2)])
  define d where "d = nat (k - (exponent ?x - 52))"
  have k: "k = (exponent ?x - 52) + int d" using le by (simp add: d_def)
  have "(2::real) powi k = 2 powi (exponent ?x - 52) * 2 ^ d"
    by (subst k) (simp add: power_int_add)
  then have x: "?x = of_int (m * 2 ^ d) * ulp ?x"
    by (simp add: ulp_def mult.commute)
  moreover have "ulp ?x \<noteq> 0" by (simp add: ulp_def)
  ultimately have q: "?x / ulp ?x = of_int (m * 2 ^ d)"
    by (metis nonzero_eq_divide_eq)
  have y: "of_int (round_half_even (?x / ulp ?x)) * ulp ?x = ?x"
    using q x by (simp only: round_half_even_of_int)
  show ?thesis
    unfolding rnd64_def Let_def y using x0 assms(3) by simp
qed

lemma rnd64_of_int:
  assumes "\<bar>n\<bar> < 2 ^ 53"
  shows "rnd64 (of_int n) = Val (of_int n)"
proof -
  have "\<bar>real_of_int n\<bar> < 2 ^ 53"
    using assms by (metis of_int_abs of_int_less_numeral_power_cancel_iff)
  also have "\<dots> < (2::real) ^ 1024" by simp
  finally have "\<bar>real_of_int n * 2 powi 0\<bar> < 2 ^ 1024" by simp
  from rnd64_representable [OF assms _ this] show ?thesis by simp
qed

lemma rnd64_numeral [simp]:
  "numeral n < (2 ^ 53 :: int) \<Longrightarrow> rnd64 (numeral n) = Val (numeral n)"
  using rnd64_of_int [of "numeral n"] by simp

lemma rnd64_neg_numeral [simp]:
  "numeral n < (2 ^ 53 :: int) \<Longrightarrow> rnd64 (- numeral n) = Val (- numeral n)"
  using rnd64_of_int [of "- numeral n"] by simp

lemma rnd64_0 [simp]: "rnd64 0 = Val 0"
  by (simp add: rnd64_def)

lemma rnd64_1 [simp]: "rnd64 1 = Val 1"
  using rnd64_of_int [of 1] by simp

lemma sqrt_36: "sqrt 36 = 6"
  using real_sqrt_abs [of 6] by simp


lemma epsilon_value: "epsilon = Val (4835703278458517 / 2 ^ 82)"
  unfolding epsilon_def
  using rnd64_at_exponent [of "- 30" "1 / 10 ^ 9"]
  by (simp add: round_half_even_def)

text \<open>Two roundings and an overflow.\<close>

lemma rnd64_tie_53: "rnd64 (2 ^ 53 + 1) = Val (2 ^ 53)"
  using rnd64_at_exponent [of 53 "2 ^ 53 + 1"]
  by (simp add: round_half_even_def)

lemma rnd64_tie_514: "rnd64 (2 ^ 514 + 2 ^ 461) = Val (2 ^ 514)"
  using rnd64_at_exponent [of 514 "2 ^ 514 + 2 ^ 461"]
  by (simp add: round_half_even_def)

lemma rnd64_overflow_1025: "rnd64 (2 ^ 1025) = PInf"
  using rnd64_at_exponent [of 1025 "2 ^ 1025"]
  by (simp add: round_half_even_def)

subsection \<open>Rounding to nearest\<close>

text \<open>
  What the proof about Heron's formula needs of the rounding: the error is half a unit
  in the last place at most, no binary64 number is nearer, rounding is monotone and
  leaves a binary64 number as it is.
\<close>

lemma ulp_pos: "0 < ulp x"
  by (simp add: ulp_def)

lemma rnd64_rU:
  "x \<noteq> 0 \<Longrightarrow> rnd64 x = (if 2 ^ 1024 \<le> \<bar>rU x\<bar> then (if 0 < x then PInf else MInf) else Val (rU x))"
  by (simp add: rnd64_def rU_def Let_def)

lemma round_half_even_bounds:
  "\<bar>of_int (round_half_even r) - r\<bar> \<le> 1 / 2"
  unfolding round_half_even_def Let_def by (auto simp: abs_if; linarith)

lemma round_half_even_nearest:
  "\<bar>of_int (round_half_even r) - r\<bar> \<le> \<bar>of_int n - r\<bar>"
proof -
  have "n \<le> \<lfloor>r\<rfloor> \<or> \<lfloor>r\<rfloor> + 1 \<le> n" by linarith
  then have "1 / 2 \<le> \<bar>of_int n - r\<bar> \<or> (n = \<lfloor>r\<rfloor> \<or> n = \<lfloor>r\<rfloor> + 1)"
    by linarith
  moreover have "\<bar>of_int (round_half_even r) - r\<bar> \<le> \<bar>of_int \<lfloor>r\<rfloor> - r\<bar>"
    unfolding round_half_even_def Let_def by (auto simp: abs_if; linarith)
  moreover have "\<bar>of_int (round_half_even r) - r\<bar> \<le> \<bar>of_int (\<lfloor>r\<rfloor> + 1) - r\<bar>"
    unfolding round_half_even_def Let_def by (auto simp: abs_if; linarith)
  ultimately show ?thesis using round_half_even_bounds [of r] by fastforce
qed

lemma round_half_even_eq:
  "of_int n - 1 / 2 < r \<Longrightarrow> r < of_int n + 1 / 2 \<Longrightarrow> round_half_even r = n"
  unfolding round_half_even_def Let_def by (auto; linarith)

lemma rU_error: "\<bar>rU x - x\<bar> \<le> ulp x / 2"
proof -
  have "rU x - x = (of_int (round_half_even (x / ulp x)) - x / ulp x) * ulp x"
    using ulp_pos [of x] by (simp add: rU_def field_simps)
  then have "\<bar>rU x - x\<bar> = \<bar>of_int (round_half_even (x / ulp x)) - x / ulp x\<bar> * ulp x"
    using ulp_pos [of x] by (simp add: abs_mult)
  also have "\<dots> \<le> 1 / 2 * ulp x"
    using round_half_even_bounds [of "x / ulp x"] ulp_pos [of x]
    by (intro mult_right_mono) simp_all
  finally show ?thesis by simp
qed

lemma rU_nearest_multiple: "\<bar>rU x - x\<bar> \<le> \<bar>of_int n * ulp x - x\<bar>"
proof -
  have 1: "rU x - x = (of_int (round_half_even (x / ulp x)) - x / ulp x) * ulp x"
    using ulp_pos [of x] by (simp add: rU_def field_simps)
  have 2: "of_int n * ulp x - x = (of_int n - x / ulp x) * ulp x"
    using ulp_pos [of x] by (simp add: field_simps)
  have "\<bar>of_int (round_half_even (x / ulp x)) - x / ulp x\<bar> * ulp x \<le> \<bar>of_int n - x / ulp x\<bar> * ulp x"
    using round_half_even_nearest [of "x / ulp x" n] ulp_pos [of x]
    by (intro mult_right_mono) simp_all
  then show ?thesis
    unfolding 1 2 using ulp_pos [of x] by (simp add: abs_mult)
qed

lemma exponent_ge: "- 1022 \<le> exponent x"
  by (simp add: exponent_def)

lemma exponent_mono:
  assumes "0 < a" "a \<le> d"
  shows "exponent a \<le> exponent d"
proof -
  have "log 2 \<bar>a\<bar> \<le> log 2 \<bar>d\<bar>" using assms by simp
  then have "\<lfloor>log 2 \<bar>a\<bar>\<rfloor> \<le> \<lfloor>log 2 \<bar>d\<bar>\<rfloor>" by (rule floor_mono)
  then show ?thesis by (simp add: exponent_def)
qed

lemma abs_less_exponent:
  assumes "x \<noteq> 0"
  shows "\<bar>x\<bar> < 2 powi (exponent x + 1)"
proof -
  have pos: "0 < \<bar>x\<bar>" using assms by simp
  have "\<bar>x\<bar> < 2 powr (of_int (\<lfloor>log 2 \<bar>x\<bar>\<rfloor> + 1))"
    using floor_log_eq_powr_iff [of "\<bar>x\<bar>" 2 "\<lfloor>log 2 \<bar>x\<bar>\<rfloor>"] pos by simp
  then have "\<bar>x\<bar> < 2 powi (\<lfloor>log 2 \<bar>x\<bar>\<rfloor> + 1)"
    using two_powr_int [of "\<lfloor>log 2 \<bar>x\<bar>\<rfloor> + 1"] by simp
  also have "\<dots> \<le> 2 powi (exponent x + 1)"
    by (rule power_int_increasing) (simp_all add: exponent_def)
  finally show ?thesis .
qed

lemma exponent_lower:
  assumes "x \<noteq> 0" "- 1022 < exponent x"
  shows "2 powi exponent x \<le> \<bar>x\<bar>"
proof -
  have "exponent x = \<lfloor>log 2 \<bar>x\<bar>\<rfloor>" using assms(2) by (simp add: exponent_def max_def split: if_splits)
  then show ?thesis using floor_log2_lower [OF assms(1)] by simp
qed

lemma exponent_power: "- 1022 \<le> e \<Longrightarrow> exponent (2 powi e) = e"
  using exponent_eq [of e "2 powi e"] power_int_strict_increasing [of e "e + 1" "2::real"]
  by simp

lemma exponent_same:
  assumes "0 < a" "a \<le> x" "x < 2 powi (exponent a + 1)"
  shows "exponent x = exponent a"
proof (rule antisym)
  show "exponent a \<le> exponent x" by (rule exponent_mono [OF assms(1,2)])
  have x0: "x \<noteq> 0" using assms by simp
  show "exponent x \<le> exponent a"
  proof (rule ccontr)
    assume "\<not> exponent x \<le> exponent a"
    then have lt: "exponent a + 1 \<le> exponent x" by simp
    then have "- 1022 < exponent x" using exponent_ge [of a] by linarith
    from exponent_lower [OF x0 this] have "2 powi exponent x \<le> x" using assms by simp
    moreover have "(2::real) powi (exponent a + 1) \<le> 2 powi exponent x"
      using lt by (intro power_int_increasing) simp_all
    ultimately show False using assms(3) by linarith
  qed
qed

lemma ulp_multiple:
  assumes "exponent a \<le> exponent d"
  shows "ulp d = of_int (2 ^ nat (exponent d - exponent a)) * ulp a"
proof -
  have "exponent d - 52 = (exponent a - 52) + int (nat (exponent d - exponent a))"
    using assms by simp
  then have "(2::real) powi (exponent d - 52) = 2 powi (exponent a - 52) * 2 ^ nat (exponent d - exponent a)"
    by (metis power_int_add power_int_of_nat zero_neq_numeral)
  then show ?thesis by (simp add: ulp_def mult.commute)
qed

text \<open>A binary64 number that is not below \<open>a\<close> is a multiple of \<open>ulp a\<close>.\<close>

lemma on_grid_multiple:
  assumes "0 < a" "a \<le> d" "on_grid d"
  shows "\<exists>n. d = of_int n * ulp a"
proof -
  from assms(3) obtain m where m: "d = of_int m * ulp d" unfolding on_grid_def by blast
  have "ulp d = of_int (2 ^ nat (exponent d - exponent a)) * ulp a"
    by (rule ulp_multiple [OF exponent_mono [OF assms(1,2)]])
  with m have "d = of_int (m * 2 ^ nat (exponent d - exponent a)) * ulp a"
    by (metis (no_types, opaque_lifting) mult.assoc of_int_mult)
  then show ?thesis by blast
qed

lemma on_grid_min_multiple:
  assumes "on_grid d"
  shows "\<exists>n. d = of_int n * 2 powi (- 1074)"
proof -
  from assms obtain m where m: "d = of_int m * ulp d" unfolding on_grid_def by blast
  have "exponent d - 52 = - 1074 + int (nat (exponent d + 1022))"
    using exponent_ge [of d] by simp
  then have "(2::real) powi (exponent d - 52) = 2 powi (- 1074) * 2 ^ nat (exponent d + 1022)"
    by (metis power_int_add power_int_of_nat zero_neq_numeral)
  then have "ulp d = of_int (2 ^ nat (exponent d + 1022)) * 2 powi (- 1074)"
    by (simp add: ulp_def mult.commute)
  with m have "d = of_int (m * 2 ^ nat (exponent d + 1022)) * 2 powi (- 1074)"
    by (metis (no_types, opaque_lifting) mult.assoc of_int_mult)
  then show ?thesis by blast
qed

lemma rU_on_grid: "on_grid d \<Longrightarrow> rU d = d"
proof -
  assume "on_grid d"
  then obtain m where m: "d = of_int m * ulp d" unfolding on_grid_def by blast
  then have "d / ulp d = of_int m" using ulp_pos [of d] by (simp add: field_simps)
  then show "rU d = d" using m by (simp add: rU_def round_half_even_of_int)
qed

lemma exact_on_grid: "exact x \<Longrightarrow> on_grid x"
proof (cases "x = 0")
  case True
  then show ?thesis unfolding on_grid_def by (intro exI [of _ 0]) simp
next
  case False
  assume "exact x"
  then have "rnd64 x = Val x" by (simp add: exact_def)
  then have "rU x = x" using rnd64_rU [OF False] by (simp split: if_splits)
  then show ?thesis unfolding on_grid_def rU_def by metis
qed

lemma exact_bound: "exact x \<Longrightarrow> \<bar>x\<bar> < 2 ^ 1024"
proof (cases "x = 0")
  case True
  then show ?thesis by simp
next
  case False
  assume "exact x"
  then have "rnd64 x = Val x" by (simp add: exact_def)
  then show ?thesis using rnd64_rU [OF False] by (simp split: if_splits)
qed

lemma power_grid: "- 1022 \<le> e \<Longrightarrow> 2 powi e = of_int (2 ^ 52) * ulp (2 powi e)"
proof -
  assume e: "- 1022 \<le> e"
  have "e = (e - 52) + 52" by simp
  then have "(2::real) powi e = 2 powi (e - 52) * 2 powi 52"
    by (metis power_int_add zero_neq_numeral)
  moreover have "ulp (2 powi e) = 2 powi (e - 52)"
    by (simp only: ulp_def exponent_power [OF e])
  ultimately show ?thesis by (simp only:) simp
qed

text \<open>No binary64 number is nearer to \<open>x\<close> than the rounded \<open>x\<close>.\<close>

lemma rU_nearest:
  assumes "0 < x" "on_grid d"
  shows "\<bar>rU x - x\<bar> \<le> \<bar>d - x\<bar>"
proof -
  have x0: "x \<noteq> 0" using assms by simp
  consider "exponent x = - 1022" | "2 powi exponent x \<le> d"
    | "- 1022 < exponent x" "d < 2 powi exponent x"
    using exponent_ge [of x] by fastforce
  then show ?thesis
  proof cases
    case 1
    then have "ulp x = 2 powi (- 1074)" by (simp add: ulp_def)
    with on_grid_min_multiple [OF assms(2)] obtain n where "d = of_int n * ulp x" by auto
    then show ?thesis using rU_nearest_multiple [of x n] by simp
  next
    case 2
    have "exponent (2 powi exponent x) = exponent x"
      by (rule exponent_power [OF exponent_ge])
    then have u: "ulp (2 powi exponent x) = ulp x" by (simp add: ulp_def)
    have "(0::real) < 2 powi exponent x" by simp
    from on_grid_multiple [OF this 2 assms(2)] obtain n where "d = of_int n * ulp x"
      unfolding u by blast
    then show ?thesis using rU_nearest_multiple [of x n] by simp
  next
    case 3
    have w: "2 powi exponent x = of_int (2 ^ 52) * ulp x"
      using power_grid [OF exponent_ge [of x]] exponent_power [OF exponent_ge [of x]]
      by (simp add: ulp_def)
    have le: "2 powi exponent x \<le> x" using exponent_lower [OF x0 3(1)] assms(1) by simp
    have "\<bar>rU x - x\<bar> \<le> \<bar>2 powi exponent x - x\<bar>"
      using rU_nearest_multiple [of x "2 ^ 52"] w by simp
    also have "\<dots> = x - 2 powi exponent x" using le by simp
    also have "\<dots> \<le> \<bar>d - x\<bar>" using 3(2) le by simp
    finally show ?thesis .
  qed
qed

lemma rU_mono_ge:
  assumes "0 < d" "d \<le> x" "on_grid d"
  shows "d \<le> rU x"
proof (rule ccontr)
  assume "\<not> d \<le> rU x"
  then have "\<bar>d - x\<bar> < \<bar>rU x - x\<bar>" using assms by simp
  moreover have "0 < x" using assms by simp
  ultimately show False using rU_nearest [of x d] assms(3) by simp
qed

lemma rU_mono_le:
  assumes "0 < x" "x \<le> d" "on_grid d"
  shows "rU x \<le> d"
proof (rule ccontr)
  assume "\<not> rU x \<le> d"
  then have "\<bar>d - x\<bar> < \<bar>rU x - x\<bar>" using assms by simp
  then show False using rU_nearest [OF assms(1,3)] by simp
qed

lemma exponent_upper:
  assumes "x \<noteq> 0" "\<bar>x\<bar> < 2 powi (e + 1)" "- 1022 \<le> e"
  shows "exponent x \<le> e"
proof (rule ccontr)
  assume "\<not> exponent x \<le> e"
  then have lt: "e + 1 \<le> exponent x" by simp
  then have "- 1022 < exponent x" using assms(3) by linarith
  from exponent_lower [OF assms(1) this] have "2 powi exponent x \<le> \<bar>x\<bar>" .
  moreover have "(2::real) powi (e + 1) \<le> 2 powi exponent x"
    using lt by (intro power_int_increasing) simp_all
  ultimately show False using assms(2) by linarith
qed

lemma on_grid_criterion:
  assumes "d = of_int n * 2 powi k" "- 1074 \<le> k" "\<bar>d\<bar> < 2 powi (k + 53)"
  shows "on_grid d"
proof (cases "d = 0")
  case True
  then show ?thesis unfolding on_grid_def by (intro exI [of _ 0]) simp
next
  case False
  have "k + 52 + 1 = k + 53" by simp
  then have "\<bar>d\<bar> < 2 powi (k + 52 + 1)" using assms(3) by (simp only:)
  moreover have "- 1022 \<le> k + 52" using assms(2) by simp
  ultimately have "exponent d \<le> k + 52"
    by (rule exponent_upper [OF False])
  then have "k = (exponent d - 52) + int (nat (k - (exponent d - 52)))" by simp
  then have "(2::real) powi k = 2 powi (exponent d - 52) * 2 ^ nat (k - (exponent d - 52))"
    by (metis power_int_add power_int_of_nat zero_neq_numeral)
  then have "d = of_int (n * 2 ^ nat (k - (exponent d - 52))) * ulp d"
    using assms(1) by (simp add: ulp_def mult.commute mult.left_commute)
  then show ?thesis unfolding on_grid_def by blast
qed

lemma on_grid_double:
  assumes "on_grid a"
  shows "on_grid (2 * a)"
proof (cases "a = 0")
  case True
  then show ?thesis unfolding on_grid_def by (intro exI [of _ 0]) simp
next
  case False
  from assms obtain m where m: "a = of_int m * ulp a" unfolding on_grid_def by blast
  have "exponent a - 51 = (exponent a - 52) + 1" by simp
  then have p: "(2::real) powi (exponent a - 51) = 2 powi (exponent a - 52) * 2"
    by (metis power_int_add power_int_1_right zero_neq_numeral)
  have 1: "2 * a = of_int m * 2 powi (exponent a - 51)"
    using m p by (simp add: ulp_def)
  have "exponent a - 51 + 53 = (exponent a + 1) + 1" by simp
  then have q: "(2::real) powi (exponent a - 51 + 53) = 2 powi (exponent a + 1) * 2"
    by (metis power_int_add power_int_1_right zero_neq_numeral)
  have 2: "\<bar>2 * a\<bar> < 2 powi (exponent a - 51 + 53)"
    using abs_less_exponent [OF False] q by simp
  show ?thesis
    by (rule on_grid_criterion [OF 1 _ 2]) (use exponent_ge [of a] in simp)
qed

lemma round_half_even_le:
  assumes "r \<le> of_int n"
  shows "round_half_even r \<le> n"
proof -
  have "\<bar>of_int (round_half_even r) - r\<bar> \<le> \<bar>of_int n - r\<bar>" by (rule round_half_even_nearest)
  then have "real_of_int (round_half_even r) \<le> of_int n" using assms by linarith
  then show ?thesis by (simp only: of_int_le_iff)
qed

lemma round_half_even_ge:
  assumes "of_int n \<le> r"
  shows "n \<le> round_half_even r"
proof -
  have "\<bar>of_int (round_half_even r) - r\<bar> \<le> \<bar>of_int n - r\<bar>" by (rule round_half_even_nearest)
  then have "real_of_int n \<le> of_int (round_half_even r)" using assms by linarith
  then show ?thesis by (simp only: of_int_le_iff)
qed

lemma rU_nonneg: "0 \<le> x \<Longrightarrow> 0 \<le> rU x"
proof -
  assume "0 \<le> x"
  then have "of_int 0 \<le> x / ulp x" using ulp_pos [of x] by simp
  then have "0 \<le> round_half_even (x / ulp x)" by (rule round_half_even_ge)
  then show ?thesis using ulp_pos [of x] by (simp add: rU_def)
qed

lemma rnd64_nonneg: "0 \<le> x \<Longrightarrow> dle (Val 0) (rnd64 x)"
proof (cases "x = 0")
  case True
  then show ?thesis by simp
next
  case False
  assume "0 \<le> x"
  then show ?thesis using False rnd64_rU [OF False] rU_nonneg [of x] by simp
qed

lemma ulp_minus: "ulp (- x) = ulp x"
  by (simp add: ulp_def exponent_def)

lemma on_grid_minus: "on_grid x \<Longrightarrow> on_grid (- x)"
proof -
  assume "on_grid x"
  then obtain m where "x = of_int m * ulp x" unfolding on_grid_def by blast
  then have "- x = of_int (- m) * ulp (- x)" by (simp add: ulp_minus)
  then show ?thesis unfolding on_grid_def by blast
qed

lemma on_grid_power: "- 1022 \<le> e \<Longrightarrow> on_grid (2 powi e)"
  using power_grid [of e] unfolding on_grid_def by blast

lemma on_grid_criterion_le:
  assumes "d = of_int n * 2 powi k" "- 1074 \<le> k" "\<bar>d\<bar> \<le> 2 powi (k + 53)"
  shows "on_grid d"
proof (cases "\<bar>d\<bar> < 2 powi (k + 53)")
  case True
  show ?thesis by (rule on_grid_criterion [OF assms(1,2) True])
next
  case False
  then have "\<bar>d\<bar> = 2 powi (k + 53)" using assms(3) by simp
  then have "d = 2 powi (k + 53) \<or> d = - (2 powi (k + 53))" by linarith
  moreover have "on_grid (2 powi (k + 53))"
    by (rule on_grid_power) (use assms(2) in simp)
  ultimately show ?thesis using on_grid_minus by blast
qed

lemma on_grid_rU: "on_grid (rU x)"
proof (cases "x = 0")
  case True
  have "rU 0 = 0" by (simp add: rU_def round_half_even_def)
  then show ?thesis unfolding True on_grid_def by (intro exI [of _ 0]) simp
next
  case False
  define n where "n = round_half_even (x / ulp x)"
  have r: "rU x = of_int n * 2 powi (exponent x - 52)" by (simp add: rU_def n_def ulp_def)
  have "exponent x + 1 = (exponent x - 52) + 53" by simp
  then have "(2::real) powi (exponent x + 1) = 2 powi (exponent x - 52) * 2 powi 53"
    by (metis power_int_add zero_neq_numeral)
  then have E: "(2::real) powi (exponent x + 1) = of_int (2 ^ 53) * ulp x"
    by (simp add: ulp_def)
  have "\<bar>x\<bar> < of_int (2 ^ 53) * ulp x" using abs_less_exponent [OF False] E by simp
  then have "x \<le> of_int (2 ^ 53) * ulp x" "of_int (- (2 ^ 53)) * ulp x \<le> x" by simp_all
  then have q: "x / ulp x \<le> of_int (2 ^ 53)" "of_int (- (2 ^ 53)) \<le> x / ulp x"
    using ulp_pos [of x] by (simp_all only: pos_divide_le_eq pos_le_divide_eq)
  have "n \<le> 2 ^ 53" unfolding n_def by (rule round_half_even_le [OF q(1)])
  moreover have "- (2 ^ 53) \<le> n" unfolding n_def by (rule round_half_even_ge [OF q(2)])
  ultimately have "\<bar>n\<bar> \<le> 2 ^ 53" by simp
  then have "\<bar>real_of_int n\<bar> \<le> of_int (2 ^ 53)" by (simp only: of_int_abs [symmetric] of_int_le_iff)
  then have "\<bar>real_of_int n\<bar> * ulp x \<le> of_int (2 ^ 53) * ulp x"
    using ulp_pos [of x] by (simp only: mult_le_cancel_right_pos)
  then have "\<bar>rU x\<bar> \<le> 2 powi (exponent x + 1)"
    using ulp_pos [of x] unfolding E by (simp add: rU_def n_def abs_mult)
  moreover have "exponent x + 1 = exponent x - 52 + 53" by simp
  ultimately have b: "\<bar>rU x\<bar> \<le> 2 powi (exponent x - 52 + 53)" by (simp only:)
  show ?thesis
    by (rule on_grid_criterion_le [OF r _ b]) (use exponent_ge [of x] in simp)
qed

lemma on_grid_exact: "on_grid x \<Longrightarrow> \<bar>x\<bar> < 2 ^ 1024 \<Longrightarrow> exact x"
proof (cases "x = 0")
  case True
  then show ?thesis by (simp add: exact_def)
next
  case False
  assume "on_grid x" "\<bar>x\<bar> < 2 ^ 1024"
  then show ?thesis using rnd64_rU [OF False] rU_on_grid [of x] by (simp add: exact_def)
qed

lemma rnd64_Val_exact: "rnd64 x = Val y \<Longrightarrow> exact y"
proof (cases "x = 0")
  case True
  assume "rnd64 x = Val y"
  then show ?thesis using True by (simp add: exact_def)
next
  case False
  assume "rnd64 x = Val y"
  then have "y = rU x" "\<bar>y\<bar> < 2 ^ 1024"
    using rnd64_rU [OF False] by (simp_all split: if_splits)
  then show ?thesis using on_grid_exact [of y] on_grid_rU [of x] by simp
qed

lemma rnd64_pos_cases:
  assumes "0 < x"
  shows "rnd64 x = PInf \<and> 2 ^ 1024 \<le> rU x \<or> rnd64 x = Val (rU x) \<and> 0 \<le> rU x \<and> rU x < 2 ^ 1024"
proof -
  have "x \<noteq> 0" using assms by simp
  from rnd64_rU [OF this] show ?thesis using rU_nonneg [of x] assms by simp
qed

lemma dlt_rnd64:
  assumes "0 < x" "exact a" "dlt (Val a) (rnd64 x)"
  shows "a < rU x"
  using rnd64_pos_cases [OF assms(1)] exact_bound [OF assms(2)] assms(3) by auto

lemma dsub_finite:
  assumes "exact s" "0 < b" "b \<le> s"
  shows "\<exists>d. dsub (Val s) (Val b) = Val d \<and> 0 \<le> d"
proof (cases "s = b")
  case True
  then show ?thesis by simp
next
  case False
  then have p: "0 < s - b" using assms by simp
  have "s - b \<le> s" using assms by simp
  from rU_mono_le [OF p this exact_on_grid [OF assms(1)]] have "rU (s - b) \<le> s" .
  then have "rU (s - b) < 2 ^ 1024" using exact_bound [OF assms(1)] by simp
  then show ?thesis using rnd64_pos_cases [OF p] by auto
qed

subsection \<open>The rounded perimeter\<close>

lemma two_powi_Suc: "(2::real) powi (e + 1) = 2 * 2 powi e"
  by (simp add: power_int_add)

text \<open>
  The sum \<open>(a + b) + c\<close> as the code computes it, with two roundings, is at least twice
  the side \<open>a\<close> when the rounded \<open>b + c\<close> exceeds \<open>a\<close>. First, \<open>b + c\<close> then exceeds \<open>a\<close> by
  half a unit in the last place of \<open>a\<close> at least.
\<close>

lemma sum_above_side:
  assumes a: "0 < a" "on_grid a" and bc: "0 < b + c" and v: "a < rU (b + c)"
  shows "a + ulp a / 2 \<le> b + c"
proof -
  have gt: "a < b + c"
  proof (rule ccontr)
    assume "\<not> a < b + c"
    then have "rU (b + c) \<le> a" using rU_mono_le [OF bc _ a(2)] by simp
    then show False using v by simp
  qed
  from a(2) obtain m where m: "a = of_int m * ulp a" unfolding on_grid_def by blast
  have "exponent a \<le> exponent (b + c)" using exponent_mono [OF a(1), of "b + c"] gt by simp
  from ulp_multiple [OF this] obtain j :: int where j: "ulp (b + c) = of_int j * ulp a" by blast
  have "rU (b + c) = of_int (round_half_even ((b + c) / ulp (b + c)) * j) * ulp a"
    unfolding rU_def by (subst j) simp
  then obtain n where n: "rU (b + c) = of_int n * ulp a" by blast
  have "of_int m * ulp a < of_int n * ulp a" using v m n by simp
  then have "real_of_int m < of_int n" using ulp_pos [of a] by simp
  then have "m + 1 \<le> n" by simp
  then have "real_of_int (m + 1) \<le> of_int n" by (simp only: of_int_le_iff)
  then have "of_int (m + 1) * ulp a \<le> of_int n * ulp a"
    using ulp_pos [of a] by (simp only: mult_le_cancel_right_pos)
  then have y: "a + ulp a \<le> rU (b + c)"
    using m n by (simp add: algebra_simps)
  have "\<bar>rU (b + c) - (b + c)\<bar> \<le> \<bar>a - (b + c)\<bar>" by (rule rU_nearest [OF bc a(2)])
  then have "rU (b + c) - (b + c) \<le> b + c - a" using gt by linarith
  then show ?thesis using y by linarith
qed

text \<open>
  When \<open>a\<close> is the largest side: the first rounding loses at most one unit of \<open>a\<close>, and
  the second, to nearest, gives it back.
\<close>

lemma perimeter_ge_twice_largest:
  assumes a: "0 < a" "on_grid a" and b: "0 < b" "b < a" and c: "0 < c" "c < a"
    and v: "a < rU (b + c)"
  shows "2 * a \<le> rU (rU (a + b) + c)"
proof -
  define u where "u = ulp a"
  define E where "E = (2::real) powi (exponent a + 1)"
  have u0: "0 < u" by (simp add: u_def ulp_pos)
  have s1: "a + u / 2 \<le> b + c"
    unfolding u_def by (rule sum_above_side [OF a _ v]) (use b c in simp)
  have g2: "on_grid (2 * a)" by (rule on_grid_double [OF a(2)])
  have a2: "0 < 2 * a" using a by simp
  have aE: "a < E" using abs_less_exponent [of a] a(1) by (simp add: E_def)
  have uE: "u = 2 powi (exponent a - 52)" by (simp add: u_def ulp_def)
  have "exponent a + 1 = (exponent a - 52) + 53" by simp
  then have "(2::real) powi (exponent a + 1) = 2 powi (exponent a - 52) * 2 powi 53"
    by (metis power_int_add zero_neq_numeral)
  then have Eu: "E = 2 ^ 53 * u" by (simp add: E_def uE)
  have expE: "exponent E = exponent a + 1"
    unfolding E_def by (rule exponent_power) (use exponent_ge [of a] in simp)
  have E2: "2 powi (exponent E + 1) = 2 * E"
    unfolding expE by (simp only: two_powi_Suc E_def)
  have E0: "0 < E" by (simp add: E_def)
  have ulpE: "\<And>x. exponent x = exponent a + 1 \<Longrightarrow> ulp x = 2 * u"
  proof -
    fix x assume "exponent x = exponent a + 1"
    then have "ulp x = 2 powi ((exponent a - 52) + 1)" by (simp add: ulp_def)
    then show "ulp x = 2 * u" by (simp only: two_powi_Suc uE)
  qed
  consider "a + b < E" | "a + b = E" | "E < a + b" by linarith
  then show ?thesis
  proof cases
    case 1
    have "exponent (a + b) = exponent a"
      by (rule exponent_same [OF a(1)]) (use b 1 in \<open>simp_all add: E_def\<close>)
    then have "ulp (a + b) = u" by (simp add: ulp_def u_def)
    then have "\<bar>rU (a + b) - (a + b)\<bar> \<le> u / 2" using rU_error [of "a + b"] by simp
    then have "2 * a \<le> rU (a + b) + c" using s1 by linarith
    then show ?thesis by (rule rU_mono_ge [OF a2 _ g2])
  next
    case 2
    have "E = of_int (2 ^ 52) * ulp E"
      unfolding E_def by (rule power_grid) (use exponent_ge [of a] in simp)
    then have "on_grid E" unfolding on_grid_def by blast
    then have "rU (a + b) = a + b" using rU_on_grid 2 by simp
    then have "2 * a \<le> rU (a + b) + c" using s1 u0 by linarith
    then show ?thesis by (rule rU_mono_ge [OF a2 _ g2])
  next
    case 3
    have ab2: "a + b < 2 * E" using b aE by linarith
    have "exponent (a + b) = exponent E"
      by (rule exponent_same [OF E0]) (use 3 ab2 E2 in simp_all)
    then have "ulp (a + b) = 2 * u" using ulpE expE by simp
    then have "\<bar>rU (a + b) - (a + b)\<bar> \<le> u" using rU_error [of "a + b"] by simp
    then have z1: "2 * a - u / 2 \<le> rU (a + b) + c" using s1 by linarith
    show ?thesis
    proof (cases "2 * a \<le> rU (a + b) + c")
      case True
      then show ?thesis by (rule rU_mono_ge [OF a2 _ g2])
    next
      case False
      define z where "z = rU (a + b) + c"
      have z2: "z < 2 * a" using False by (simp add: z_def)
      have z1': "2 * a - u / 2 \<le> z" using z1 by (simp add: z_def)
      from a(2) obtain m where m: "a = of_int m * u" unfolding on_grid_def u_def by blast
      have "E < 2 * a" using 3 b by linarith
      then have "2 ^ 53 * u < (2 * of_int m) * u" using Eu m by simp
      then have "(2::real) ^ 53 < 2 * of_int m" using u0 by (simp only: mult_less_cancel_right_pos)
      then have "real_of_int (2 ^ 52) < of_int m" by simp
      then have "2 ^ 52 < m" by (simp only: of_int_less_iff)
      then have "2 ^ 52 + 1 \<le> m" by simp
      then have "real_of_int (2 ^ 52 + 1) \<le> of_int m" by (simp only: of_int_le_iff)
      then have "of_int (2 ^ 52 + 1) * u \<le> of_int m * u"
        using u0 by (simp only: mult_le_cancel_right_pos)
      then have "E + 2 * u \<le> 2 * a" using Eu m by (simp add: algebra_simps)
      then have Ez: "E \<le> z" using z1' u0 by linarith
      have "z < 2 * E" using z2 aE by linarith
      have "exponent z = exponent E"
        by (rule exponent_same [OF E0 Ez]) (use \<open>z < 2 * E\<close> E2 in simp)
      then have uz: "ulp z = 2 * u" using ulpE expE by simp
      have "(of_int m - 1 / 2) * (2 * u) < z"
        using z1' m u0 by (simp add: algebra_simps)
      then have lo: "of_int m - 1 / 2 < z / (2 * u)"
        using u0 by (simp add: pos_less_divide_eq)
      have "z < (of_int m + 1 / 2) * (2 * u)"
        using z2 m u0 by (simp add: algebra_simps)
      then have hi: "z / (2 * u) < of_int m + 1 / 2"
        using u0 by (simp add: pos_divide_less_eq)
      have "round_half_even (z / (2 * u)) = m" by (rule round_half_even_eq [OF lo hi])
      then have "rU z = of_int m * (2 * u)" by (simp add: rU_def uz)
      then have "rU z = 2 * a" using m by simp
      then show ?thesis by (simp add: z_def)
    qed
  qed
qed

text \<open>The same for any side, the largest or not.\<close>

lemma perimeter_ge_twice_side:
  assumes a: "0 < a" "on_grid a" and b: "0 < b" "on_grid b" and c: "0 < c" "on_grid c"
    and v: "a < rU (b + c)"
  shows "2 * a \<le> rU (rU (a + b) + c)"
proof -
  have g2: "on_grid (2 * a)" by (rule on_grid_double [OF a(2)])
  have a2: "0 < 2 * a" using a by simp
  consider "a \<le> b" | "a \<le> c" | "b < a" "c < a" by linarith
  then show ?thesis
  proof cases
    case 1
    then have "2 * a \<le> a + b" by simp
    then have "2 * a \<le> rU (a + b)" by (rule rU_mono_ge [OF a2 _ g2])
    then have "2 * a \<le> rU (a + b) + c" using c by simp
    then show ?thesis by (rule rU_mono_ge [OF a2 _ g2])
  next
    case 2
    have "a \<le> a + b" using b by simp
    then have "a \<le> rU (a + b)" by (rule rU_mono_ge [OF a(1) _ a(2)])
    then have "2 * a \<le> rU (a + b) + c" using 2 by simp
    then show ?thesis by (rule rU_mono_ge [OF a2 _ g2])
  next
    case 3
    show ?thesis by (rule perimeter_ge_twice_largest [OF a b(1) 3(1) c(1) 3(2) v])
  qed
qed

lemma perimeter_ge_twice_last:
  assumes c: "0 < c" "on_grid c" and v: "c < rU (a + b)"
  shows "2 * c \<le> rU (rU (a + b) + c)"
proof -
  have 1: "2 * c \<le> rU (a + b) + c" using v by simp
  have 2: "0 < 2 * c" using c by simp
  show ?thesis by (rule rU_mono_ge [OF 2 1 on_grid_double [OF c(2)]])
qed

subsection \<open>Construction and validity\<close>

text \<open>
  What holds. Construction fails when a parameter is \<open>\<le> 0\<close> and succeeds, with a valid
  instance that stores the parameters, when every parameter is \<open>> 0\<close> (and, for a
  triangle, the three sums exceed the third side). A constructed triangle is always
  valid, and \<open>addShape\<close> keeps a collection of valid shapes valid.
\<close>

lemma dgt_not_dle: "dgt x (Val 0) \<Longrightarrow> \<not> dle x (Val 0)"
  by (cases x) simp_all

lemma Circle_new_fails:
  "dle r (Val 0) \<Longrightarrow> \<exists>m. Circle_new r = Inl (invalid_argument m)"
  by (simp add: Circle_new_def)

lemma Circle_new_succeeds:
  "dgt r (Val 0) \<Longrightarrow> Circle_new r = Inr \<lparr>radius = r\<rparr> \<and> Circle_isValid \<lparr>radius = r\<rparr>"
  using dgt_not_dle [of r] by (simp add: Circle_new_def Circle_isValid_def)

lemma Rectangle_new_fails:
  "dle w (Val 0) \<or> dle h (Val 0) \<Longrightarrow> \<exists>m. Rectangle_new w h = Inl (invalid_argument m)"
  by (simp add: Rectangle_new_def)

lemma Rectangle_new_succeeds:
  "dgt w (Val 0) \<and> dgt h (Val 0) \<Longrightarrow>
   Rectangle_new w h = Inr \<lparr>width = w, height = h\<rparr> \<and>
   Rectangle_isValid \<lparr>width = w, height = h\<rparr>"
  using dgt_not_dle [of w] dgt_not_dle [of h] by (simp add: Rectangle_new_def Rectangle_isValid_def)

lemma Triangle_new_fails_iff:
  "(\<exists>m. Triangle_new a b c = Inl (invalid_argument m)) \<longleftrightarrow>
     dle a (Val 0) \<or> dle b (Val 0) \<or> dle c (Val 0) \<or>
     \<not> (dgt (dadd a b) c \<and> dgt (dadd b c) a \<and> dgt (dadd a c) b)"
  by (simp add: Triangle_new_def Let_def satisfiesTriangleInequality_def)


lemma constructed_from_numbers_isValid:
  "(Circle_new (Val r) = Inr k \<longrightarrow> Circle_isValid k) \<and>
   (Rectangle_new (Val w) (Val h) = Inr q \<longrightarrow> Rectangle_isValid q)"
  by (auto simp add: Circle_new_def Circle_isValid_def Rectangle_new_def Rectangle_isValid_def
      split: if_splits)

lemma addShape_stores_valid:
  "(\<forall>s \<in> set (shapes g). isValid s) \<Longrightarrow> \<forall>s \<in> set (shapes (addShape g shape)). isValid s"
  by (auto simp add: addShape_def split: option.splits)

text \<open>
  What does not hold. The constructors of \<^verbatim>\<open>Circle\<close> and \<^verbatim>\<open>Rectangle\<close> and the three
  setters reject with \<^verbatim>\<open><=\<close> comparisons, all false on \<open>NaN\<close>, and \<^verbatim>\<open>isValid\<close> accepts with
  \<^verbatim>\<open>>\<close> comparisons, false on \<open>NaN\<close> as well. The constructor of \<^verbatim>\<open>Triangle\<close> does reject a
  \<open>NaN\<close> side, since it negates \<^verbatim>\<open>satisfiesTriangleInequality()\<close>.
\<close>

lemma Triangle_setSides_NaN_not_valid:
  "Triangle_new (Val 3) (Val 4) (Val 5) = Inr \<lparr>side_a = Val 3, side_b = Val 4, side_c = Val 5\<rparr> \<and>
   isValid (ATriangle \<lparr>side_a = Val 3, side_b = Val 4, side_c = Val 5\<rparr>) \<and>
   Triangle_setSides \<lparr>side_a = Val 3, side_b = Val 4, side_c = Val 5\<rparr> NaN (Val 1) (Val 1)
     = (Inr (), \<lparr>side_a = NaN, side_b = Val 1, side_c = Val 1\<rparr>) \<and>
   \<not> isValid (ATriangle \<lparr>side_a = NaN, side_b = Val 1, side_c = Val 1\<rparr>)"
  by (simp add: Triangle_new_def Triangle_setSides_def Triangle_isValid_def
      satisfiesTriangleInequality_def)

text \<open>
  C1 says that construction fails when a dimension is not positive and that no invalid
  shape is observable through construction. The code at the input \<^verbatim>\<open>Rectangle(NaN, 1)\<close>:
  the constructor does not throw and returns the rectangle, and \<open>isValid\<close> of that
  rectangle is false.
\<close>

theorem Rectangle_new_NaN_not_valid:
  "Rectangle_new NaN (Val 1) = Inr \<lparr>width = NaN, height = Val 1\<rparr> \<and>
   \<not> isValid (ARectangle \<lparr>width = NaN, height = Val 1\<rparr>)"
  by (simp add: Rectangle_new_def Rectangle_isValid_def)

text \<open>
  C3 says that every successfully constructed shape satisfies \<open>isValid\<close>. The code at
  the input \<^verbatim>\<open>Circle(NaN)\<close>: the constructor does not throw and returns the circle, and
  \<open>isValid\<close> of that circle is false.
\<close>

theorem Circle_new_NaN_not_valid:
  "Circle_new NaN = Inr \<lparr>radius = NaN\<rparr> \<and> \<not> isValid (ACircle \<lparr>radius = NaN\<rparr>)"
  by (simp add: Circle_new_def Circle_isValid_def)

subsection \<open>Setters\<close>

lemma error_is_invalid_argument: "\<exists>m. e = invalid_argument m"
  by (cases e) simp

lemma Circle_setRadius_fails:
  "dle r (Val 0) \<Longrightarrow> \<exists>m. fst (Circle_setRadius k r) = Inl (invalid_argument m)"
  by (simp add: Circle_setRadius_def)

lemma Circle_setRadius_failure:
  "fst (Circle_setRadius k r) = Inl e \<Longrightarrow> snd (Circle_setRadius k r) = k"
  by (auto simp add: Circle_setRadius_def split: if_splits)

lemma Rectangle_setDimensions_fails:
  "dle w (Val 0) \<or> dle h (Val 0) \<Longrightarrow>
   \<exists>m. fst (Rectangle_setDimensions q w h) = Inl (invalid_argument m)"
  by (simp add: Rectangle_setDimensions_def)

lemma Rectangle_setDimensions_failure:
  "fst (Rectangle_setDimensions q w h) = Inl e \<Longrightarrow> snd (Rectangle_setDimensions q w h) = q"
  by (auto simp add: Rectangle_setDimensions_def split: if_splits)

lemma Triangle_setSides_fails:
  "dle a (Val 0) \<or> dle b (Val 0) \<or> dle c (Val 0) \<or>
   dle (dadd a b) c \<or> dle (dadd b c) a \<or> dle (dadd a c) b \<Longrightarrow>
   \<exists>m. fst (Triangle_setSides t a b c) = Inl (invalid_argument m)"
  by (auto simp add: Triangle_setSides_def)

lemma Triangle_setSides_failure:
  "fst (Triangle_setSides t a b c) = Inl e \<Longrightarrow> snd (Triangle_setSides t a b c) = t"
  by (auto simp add: Triangle_setSides_def split: if_splits)

text \<open>
  C2. For every shape and every proposed parameter set: the setter throws
  \<^verbatim>\<open>invalid_argument\<close> when the proposed values violate the precondition the
  specification gives for construction (radius \<open>\<le> 0\<close>; width or height \<open>\<le> 0\<close>; a side
  \<open>\<le> 0\<close> or one of \<open>a+b\<le>c\<close>, \<open>b+c\<le>a\<close>, \<open>a+c\<le>b\<close>), and whenever a setter throws, the
  object after the call is the object before it, so \<open>area\<close>, \<open>perimeter\<close>, \<open>name\<close> and
  \<open>isValid\<close> are what they were.
\<close>

theorem failing_setter_changes_nothing:
  "(fst (Circle_setRadius k r) = Inl e \<longrightarrow>
      (\<exists>m. e = invalid_argument m) \<and> snd (Circle_setRadius k r) = k \<and>
      area (ACircle (snd (Circle_setRadius k r))) = area (ACircle k) \<and>
      perimeter (ACircle (snd (Circle_setRadius k r))) = perimeter (ACircle k) \<and>
      name (ACircle (snd (Circle_setRadius k r))) = name (ACircle k) \<and>
      isValid (ACircle (snd (Circle_setRadius k r))) = isValid (ACircle k)) \<and>
   (dle r (Val 0) \<longrightarrow> (\<exists>m. fst (Circle_setRadius k r) = Inl (invalid_argument m))) \<and>
   (fst (Rectangle_setDimensions q w h) = Inl e \<longrightarrow>
      (\<exists>m. e = invalid_argument m) \<and> snd (Rectangle_setDimensions q w h) = q \<and>
      area (ARectangle (snd (Rectangle_setDimensions q w h))) = area (ARectangle q) \<and>
      perimeter (ARectangle (snd (Rectangle_setDimensions q w h))) = perimeter (ARectangle q) \<and>
      name (ARectangle (snd (Rectangle_setDimensions q w h))) = name (ARectangle q) \<and>
      isValid (ARectangle (snd (Rectangle_setDimensions q w h))) = isValid (ARectangle q)) \<and>
   (dle w (Val 0) \<or> dle h (Val 0) \<longrightarrow>
      (\<exists>m. fst (Rectangle_setDimensions q w h) = Inl (invalid_argument m))) \<and>
   (fst (Triangle_setSides t a b c) = Inl e \<longrightarrow>
      (\<exists>m. e = invalid_argument m) \<and> snd (Triangle_setSides t a b c) = t \<and>
      area (ATriangle (snd (Triangle_setSides t a b c))) = area (ATriangle t) \<and>
      perimeter (ATriangle (snd (Triangle_setSides t a b c))) = perimeter (ATriangle t) \<and>
      name (ATriangle (snd (Triangle_setSides t a b c))) = name (ATriangle t) \<and>
      isValid (ATriangle (snd (Triangle_setSides t a b c))) = isValid (ATriangle t)) \<and>
   (dle a (Val 0) \<or> dle b (Val 0) \<or> dle c (Val 0) \<or>
    dle (dadd a b) c \<or> dle (dadd b c) a \<or> dle (dadd a c) b \<longrightarrow>
      (\<exists>m. fst (Triangle_setSides t a b c) = Inl (invalid_argument m)))"
proof -
  have circle: "fst (Circle_setRadius k r) = Inl e \<longrightarrow>
      (\<exists>m. e = invalid_argument m) \<and> snd (Circle_setRadius k r) = k \<and>
      area (ACircle (snd (Circle_setRadius k r))) = area (ACircle k) \<and>
      perimeter (ACircle (snd (Circle_setRadius k r))) = perimeter (ACircle k) \<and>
      name (ACircle (snd (Circle_setRadius k r))) = name (ACircle k) \<and>
      isValid (ACircle (snd (Circle_setRadius k r))) = isValid (ACircle k)"
  proof
    assume "fst (Circle_setRadius k r) = Inl e"
    then have "snd (Circle_setRadius k r) = k" by (rule Circle_setRadius_failure)
    then show "(\<exists>m. e = invalid_argument m) \<and> snd (Circle_setRadius k r) = k \<and>
      area (ACircle (snd (Circle_setRadius k r))) = area (ACircle k) \<and>
      perimeter (ACircle (snd (Circle_setRadius k r))) = perimeter (ACircle k) \<and>
      name (ACircle (snd (Circle_setRadius k r))) = name (ACircle k) \<and>
      isValid (ACircle (snd (Circle_setRadius k r))) = isValid (ACircle k)"
      using error_is_invalid_argument [of e] by simp
  qed
  have rectangle: "fst (Rectangle_setDimensions q w h) = Inl e \<longrightarrow>
      (\<exists>m. e = invalid_argument m) \<and> snd (Rectangle_setDimensions q w h) = q \<and>
      area (ARectangle (snd (Rectangle_setDimensions q w h))) = area (ARectangle q) \<and>
      perimeter (ARectangle (snd (Rectangle_setDimensions q w h))) = perimeter (ARectangle q) \<and>
      name (ARectangle (snd (Rectangle_setDimensions q w h))) = name (ARectangle q) \<and>
      isValid (ARectangle (snd (Rectangle_setDimensions q w h))) = isValid (ARectangle q)"
  proof
    assume "fst (Rectangle_setDimensions q w h) = Inl e"
    then have "snd (Rectangle_setDimensions q w h) = q" by (rule Rectangle_setDimensions_failure)
    then show "(\<exists>m. e = invalid_argument m) \<and> snd (Rectangle_setDimensions q w h) = q \<and>
      area (ARectangle (snd (Rectangle_setDimensions q w h))) = area (ARectangle q) \<and>
      perimeter (ARectangle (snd (Rectangle_setDimensions q w h))) = perimeter (ARectangle q) \<and>
      name (ARectangle (snd (Rectangle_setDimensions q w h))) = name (ARectangle q) \<and>
      isValid (ARectangle (snd (Rectangle_setDimensions q w h))) = isValid (ARectangle q)"
      using error_is_invalid_argument [of e] by simp
  qed
  have triangle: "fst (Triangle_setSides t a b c) = Inl e \<longrightarrow>
      (\<exists>m. e = invalid_argument m) \<and> snd (Triangle_setSides t a b c) = t \<and>
      area (ATriangle (snd (Triangle_setSides t a b c))) = area (ATriangle t) \<and>
      perimeter (ATriangle (snd (Triangle_setSides t a b c))) = perimeter (ATriangle t) \<and>
      name (ATriangle (snd (Triangle_setSides t a b c))) = name (ATriangle t) \<and>
      isValid (ATriangle (snd (Triangle_setSides t a b c))) = isValid (ATriangle t)"
  proof
    assume "fst (Triangle_setSides t a b c) = Inl e"
    then have "snd (Triangle_setSides t a b c) = t" by (rule Triangle_setSides_failure)
    then show "(\<exists>m. e = invalid_argument m) \<and> snd (Triangle_setSides t a b c) = t \<and>
      area (ATriangle (snd (Triangle_setSides t a b c))) = area (ATriangle t) \<and>
      perimeter (ATriangle (snd (Triangle_setSides t a b c))) = perimeter (ATriangle t) \<and>
      name (ATriangle (snd (Triangle_setSides t a b c))) = name (ATriangle t) \<and>
      isValid (ATriangle (snd (Triangle_setSides t a b c))) = isValid (ATriangle t)"
      using error_is_invalid_argument [of e] by simp
  qed
  have circle_throws: "dle r (Val 0) \<longrightarrow>
      (\<exists>m. fst (Circle_setRadius k r) = Inl (invalid_argument m))"
    using Circle_setRadius_fails by blast
  have rectangle_throws: "dle w (Val 0) \<or> dle h (Val 0) \<longrightarrow>
      (\<exists>m. fst (Rectangle_setDimensions q w h) = Inl (invalid_argument m))"
    using Rectangle_setDimensions_fails by blast
  have triangle_throws: "dle a (Val 0) \<or> dle b (Val 0) \<or> dle c (Val 0) \<or>
      dle (dadd a b) c \<or> dle (dadd b c) a \<or> dle (dadd a c) b \<longrightarrow>
      (\<exists>m. fst (Triangle_setSides t a b c) = Inl (invalid_argument m))"
    using Triangle_setSides_fails [of a b c t] by blast
  from circle circle_throws rectangle rectangle_throws triangle triangle_throws
  show ?thesis by (intro conjI)
qed

theorem failing_setter_changes_nothing_witness:
  "dle (Val (- 1)) (Val 0) \<and>
   fst (Circle_setRadius \<lparr>radius = Val 1\<rparr> (Val (- 1)))
     = Inl (invalid_argument ''Circle radius must be positive'') \<and>
   snd (Circle_setRadius \<lparr>radius = Val 1\<rparr> (Val (- 1))) = \<lparr>radius = Val 1\<rparr> \<and>
   dle (Val 0) (Val 0) \<and>
   fst (Rectangle_setDimensions \<lparr>width = Val 3, height = Val 4\<rparr> (Val 2) (Val 0))
     = Inl (invalid_argument ''Rectangle dimensions must be positive'') \<and>
   snd (Rectangle_setDimensions \<lparr>width = Val 3, height = Val 4\<rparr> (Val 2) (Val 0))
     = \<lparr>width = Val 3, height = Val 4\<rparr> \<and>
   dle (dadd (Val 1) (Val 1)) (Val 3) \<and>
   fst (Triangle_setSides \<lparr>side_a = Val 3, side_b = Val 4, side_c = Val 5\<rparr> (Val 1) (Val 1) (Val 3))
     = Inl (invalid_argument ''Triangle inequality not satisfied'') \<and>
   snd (Triangle_setSides \<lparr>side_a = Val 3, side_b = Val 4, side_c = Val 5\<rparr> (Val 1) (Val 1) (Val 3))
     = \<lparr>side_a = Val 3, side_b = Val 4, side_c = Val 5\<rparr>"
proof -
  note circle = failing_setter_changes_nothing
      [of "\<lparr>radius = Val 1\<rparr>" "Val (- 1)" "invalid_argument ''Circle radius must be positive''"]
  note rectangle = failing_setter_changes_nothing
      [of _ _ "invalid_argument ''Rectangle dimensions must be positive''"
        "\<lparr>width = Val 3, height = Val 4\<rparr>" "Val 2" "Val 0"]
  note triangle = failing_setter_changes_nothing
      [of _ _ "invalid_argument ''Triangle inequality not satisfied''" _ _ _
        "\<lparr>side_a = Val 3, side_b = Val 4, side_c = Val 5\<rparr>" "Val 1" "Val 1" "Val 3"]
  have hk: "dle (Val (- 1)) (Val 0)" by simp
  have hq: "dle (Val 0) (Val 0)" by simp
  have ht: "dle (dadd (Val 1) (Val 1)) (Val 3)" by simp
  have "\<exists>m. fst (Circle_setRadius \<lparr>radius = Val 1\<rparr> (Val (- 1))) = Inl (invalid_argument m)"
    using circle hk by blast
  then have k: "fst (Circle_setRadius \<lparr>radius = Val 1\<rparr> (Val (- 1)))
     = Inl (invalid_argument ''Circle radius must be positive'')"
    by (simp add: Circle_setRadius_def)
  have "\<exists>m. fst (Rectangle_setDimensions \<lparr>width = Val 3, height = Val 4\<rparr> (Val 2) (Val 0))
     = Inl (invalid_argument m)"
    using rectangle hq by blast
  then have q: "fst (Rectangle_setDimensions \<lparr>width = Val 3, height = Val 4\<rparr> (Val 2) (Val 0))
     = Inl (invalid_argument ''Rectangle dimensions must be positive'')"
    by (simp add: Rectangle_setDimensions_def)
  have "\<exists>m. fst (Triangle_setSides \<lparr>side_a = Val 3, side_b = Val 4, side_c = Val 5\<rparr>
      (Val 1) (Val 1) (Val 3)) = Inl (invalid_argument m)"
    using triangle ht by blast
  then have t: "fst (Triangle_setSides \<lparr>side_a = Val 3, side_b = Val 4, side_c = Val 5\<rparr>
      (Val 1) (Val 1) (Val 3)) = Inl (invalid_argument ''Triangle inequality not satisfied'')"
    by (simp add: Triangle_setSides_def)
  have k': "snd (Circle_setRadius \<lparr>radius = Val 1\<rparr> (Val (- 1))) = \<lparr>radius = Val 1\<rparr>"
    using circle k by blast
  have q': "snd (Rectangle_setDimensions \<lparr>width = Val 3, height = Val 4\<rparr> (Val 2) (Val 0))
     = \<lparr>width = Val 3, height = Val 4\<rparr>"
    using rectangle q by blast
  have t': "snd (Triangle_setSides \<lparr>side_a = Val 3, side_b = Val 4, side_c = Val 5\<rparr> (Val 1) (Val 1) (Val 3))
     = \<lparr>side_a = Val 3, side_b = Val 4, side_c = Val 5\<rparr>"
    using triangle t by blast
  from hk k k' hq q q' ht t t' show ?thesis by (intro conjI)
qed

subsection \<open>Heron's formula\<close>

lemma dlt_PInf: "dlt PInf x = False"
  by (cases x) simp_all

lemma Triangle_isValid_sides:
  assumes "Triangle_isValid t"
  shows "\<exists>a b c. side_a t = Val a \<and> side_b t = Val b \<and> side_c t = Val c \<and>
           dlt (Val c) (rnd64 (a + b)) \<and> dlt (Val a) (rnd64 (b + c)) \<and> dlt (Val b) (rnd64 (a + c))"
  using assms
  by (cases "side_a t"; cases "side_b t"; cases "side_c t")
     (simp_all add: Triangle_isValid_def satisfiesTriangleInequality_def dlt_PInf)

lemma heron_product_nonneg:
  fixes a b c :: real
  assumes "c < a + b" "a < b + c" "b < a + c"
  shows "0 \<le> (a + b + c) / 2 * ((a + b + c) / 2 - a) * ((a + b + c) / 2 - b) * ((a + b + c) / 2 - c)"
proof -
  have "0 < a + b + c" using assms by linarith
  then have "0 < (a + b + c) / 2" by simp
  moreover have "0 < (a + b + c) / 2 - a" using assms by (simp add: field_simps)
  moreover have "0 < (a + b + c) / 2 - b" using assms by (simp add: field_simps)
  moreover have "0 < (a + b + c) / 2 - c" using assms by (simp add: field_simps)
  ultimately show ?thesis by simp
qed

lemma heron_radicand_exact:
  assumes s: "side_a t = Val a" "side_b t = Val b" "side_c t = Val c"
    and e: "heron_exact a b c"
  shows "heron_radicand t =
     Val ((a + b + c) / 2 * ((a + b + c) / 2 - a) * ((a + b + c) / 2 - b) * ((a + b + c) / 2 - c))"
proof -
  let ?s = "(a + b + c) / 2"
  from e have 1: "rnd64 (a + b) = Val (a + b)" and 2: "rnd64 (a + b + c) = Val (a + b + c)"
    and 3: "rnd64 ?s = Val ?s" and 4: "rnd64 (?s - a) = Val (?s - a)"
    and 5: "rnd64 (?s - b) = Val (?s - b)" and 6: "rnd64 (?s - c) = Val (?s - c)"
    and 7: "rnd64 (?s * (?s - a)) = Val (?s * (?s - a))"
    and 8: "rnd64 (?s * (?s - a) * (?s - b)) = Val (?s * (?s - a) * (?s - b))"
    and 9: "rnd64 (?s * (?s - a) * (?s - b) * (?s - c)) = Val (?s * (?s - a) * (?s - b) * (?s - c))"
    by (simp_all add: heron_exact_def exact_def Let_def)
  have p: "Triangle_perimeter t = Val (a + b + c)"
    by (simp only: Triangle_perimeter_def s dadd.simps 1 2)
  have h: "ddiv (Triangle_perimeter t) (Val 2) = Val ?s"
    using 3 by (simp add: p)
  show ?thesis
    by (simp only: heron_radicand_def Let_def h s dsub.simps dmul.simps 4 5 6 7 8 9)
qed

text \<open>
  The semi-perimeter as \<^verbatim>\<open>Triangle::area\<close> computes it, for a valid triangle with
  binary64 sides: it is \<open>+\<infinity>\<close> or a binary64 number that is not below any side.
\<close>

lemma Triangle_isValid_pos:
  assumes "Triangle_isValid t" "side_a t = Val a" "side_b t = Val b" "side_c t = Val c"
  shows "0 < a" "0 < b" "0 < c"
  using assms by (simp_all add: Triangle_isValid_def)

lemma semi_perimeter_ge:
  assumes ex: "exact a" "exact b" "exact c" and pos: "0 < a" "0 < b" "0 < c"
    and v: "dlt (Val c) (rnd64 (a + b))" "dlt (Val a) (rnd64 (b + c))" "dlt (Val b) (rnd64 (a + c))"
  shows "ddiv (dadd (dadd (Val a) (Val b)) (Val c)) (Val 2) = PInf \<or>
         (\<exists>r. ddiv (dadd (dadd (Val a) (Val b)) (Val c)) (Val 2) = Val r \<and> exact r \<and>
              a \<le> r \<and> b \<le> r \<and> c \<le> r)"
proof -
  note g = exact_on_grid [OF ex(1)] exact_on_grid [OF ex(2)] exact_on_grid [OF ex(3)]
  have va: "a < rU (b + c)" by (rule dlt_rnd64 [OF _ ex(1) v(2)]) (use pos in simp)
  have vb: "b < rU (a + c)" by (rule dlt_rnd64 [OF _ ex(2) v(3)]) (use pos in simp)
  have vc: "c < rU (a + b)" by (rule dlt_rnd64 [OF _ ex(3) v(1)]) (use pos in simp)
  define P where "P = rU (rU (a + b) + c)"
  have Pa: "2 * a \<le> P"
    unfolding P_def by (rule perimeter_ge_twice_side [OF pos(1) g(1) pos(2) g(2) pos(3) g(3) va])
  have "2 * b \<le> rU (rU (b + a) + c)"
    by (rule perimeter_ge_twice_side [OF pos(2) g(2) pos(1) g(1) pos(3) g(3) vb])
  then have Pb: "2 * b \<le> P" by (simp add: P_def add.commute)
  have Pc: "2 * c \<le> P"
    unfolding P_def by (rule perimeter_ge_twice_last [OF pos(3) g(3) vc])
  have ab: "0 < a + b" using pos by simp
  from rnd64_pos_cases [OF ab] show ?thesis
  proof (elim disjE conjE)
    assume "rnd64 (a + b) = PInf"
    then show ?thesis by simp
  next
    assume 1: "rnd64 (a + b) = Val (rU (a + b))" and 2: "0 \<le> rU (a + b)"
    have abc: "0 < rU (a + b) + c" using 2 pos by simp
    from rnd64_pos_cases [OF abc] show ?thesis
    proof (elim disjE conjE)
      assume "rnd64 (rU (a + b) + c) = PInf"
      then show ?thesis using 1 by simp
    next
      assume 3: "rnd64 (rU (a + b) + c) = Val (rU (rU (a + b) + c))"
      have s: "ddiv (dadd (dadd (Val a) (Val b)) (Val c)) (Val 2) = rnd64 (P / 2)"
        using 1 3 by (simp add: P_def)
      have P2: "0 < P / 2" using Pa pos by simp
      from rnd64_pos_cases [OF P2] show ?thesis
      proof (elim disjE conjE)
        assume "rnd64 (P / 2) = PInf"
        then show ?thesis using s by simp
      next
        assume 4: "rnd64 (P / 2) = Val (rU (P / 2))"
        have "exact (rU (P / 2))" by (rule rnd64_Val_exact [OF 4])
        moreover have "a \<le> rU (P / 2)" by (rule rU_mono_ge [OF pos(1) _ g(1)]) (use Pa in simp)
        moreover have "b \<le> rU (P / 2)" by (rule rU_mono_ge [OF pos(2) _ g(2)]) (use Pb in simp)
        moreover have "c \<le> rU (P / 2)" by (rule rU_mono_ge [OF pos(3) _ g(3)]) (use Pc in simp)
        ultimately show ?thesis using s 4 by simp
      qed
    qed
  qed
qed

lemma dmul_nonneg_Val:
  assumes "dle (Val 0) u" "0 \<le> d"
  shows "dle (Val 0) (dmul u (Val d)) \<or> dmul u (Val d) = NaN \<and> u = PInf \<and> d = 0"
proof (cases u)
  case (Val x)
  then have "0 \<le> x * d" using assms by simp
  then show ?thesis using Val rnd64_nonneg by simp
qed (use assms in auto)

lemma heron_finite_cases:
  assumes r: "exact r" and a: "0 < a" "a \<le> r" and b: "0 < b" "b \<le> r" and c: "0 < c" "c \<le> r"
  shows "dle (Val 0) (dmul (dmul (dmul (Val r) (dsub (Val r) (Val a))) (dsub (Val r) (Val b)))
                       (dsub (Val r) (Val c))) \<or>
         dmul (dmul (dmul (Val r) (dsub (Val r) (Val a))) (dsub (Val r) (Val b)))
              (dsub (Val r) (Val c)) = NaN \<and>
         (dmul (Val r) (dsub (Val r) (Val a)) = PInf \<and> dsub (Val r) (Val b) = Val 0 \<or>
          dmul (dmul (Val r) (dsub (Val r) (Val a))) (dsub (Val r) (Val b)) = PInf \<and>
          dsub (Val r) (Val c) = Val 0)"
proof -
  from dsub_finite [OF r a] obtain da where da: "dsub (Val r) (Val a) = Val da" "0 \<le> da" by blast
  from dsub_finite [OF r b] obtain db where db: "dsub (Val r) (Val b) = Val db" "0 \<le> db" by blast
  from dsub_finite [OF r c] obtain dc where dc: "dsub (Val r) (Val c) = Val dc" "0 \<le> dc" by blast
  define p where "p = dmul (Val r) (Val da)"
  define q where "q = dmul p (Val db)"
  define h where "h = dmul q (Val dc)"
  have "0 \<le> r * da" using a da by simp
  then have p: "dle (Val 0) p" unfolding p_def dmul.simps by (rule rnd64_nonneg)
  have "dle (Val 0) h \<or> h = NaN \<and> (p = PInf \<and> db = 0 \<or> q = PInf \<and> dc = 0)"
    using dmul_nonneg_Val [OF p db(2)]
  proof
    assume q: "dle (Val 0) (dmul p (Val db))"
    from dmul_nonneg_Val [OF q dc(2)] show ?thesis by (auto simp: h_def q_def)
  next
    assume "dmul p (Val db) = NaN \<and> p = PInf \<and> db = 0"
    then show ?thesis by (simp add: h_def q_def)
  qed
  then show ?thesis unfolding h_def q_def p_def da(1) db(1) dc(1) by simp
qed

lemma dsqrt_nonneg: "dle (Val 0) x \<Longrightarrow> dle (Val 0) (dsqrt x)"
  by (cases x) (simp_all add: rnd64_nonneg)

lemma heron_radicand_cases:
  assumes v: "Triangle_isValid t"
    and s: "side_a t = Val a" "side_b t = Val b" "side_c t = Val c"
    and ex: "exact a" "exact b" "exact c"
  shows "let s = ddiv (Triangle_perimeter t) (Val 2);
             p = dmul s (dsub s (Val a));
             q = dmul p (dsub s (Val b)) in
         dle (Val a) s \<and> dle (Val b) s \<and> dle (Val c) s \<and>
         (dle (Val 0) (heron_radicand t) \<and> dle (Val 0) (Triangle_area t) \<or>
          heron_radicand t = NaN \<and>
          (p = PInf \<and> dsub s (Val b) = Val 0 \<or> q = PInf \<and> dsub s (Val c) = Val 0))"
proof -
  note pos = Triangle_isValid_pos [OF v s]
  from Triangle_isValid_sides [OF v] s have
    w: "dlt (Val c) (rnd64 (a + b))" "dlt (Val a) (rnd64 (b + c))" "dlt (Val b) (rnd64 (a + c))"
    by auto
  have P: "Triangle_perimeter t = dadd (dadd (Val a) (Val b)) (Val c)"
    by (simp only: Triangle_perimeter_def s)
  from semi_perimeter_ge [OF ex pos w] show ?thesis
  proof (elim disjE exE conjE)
    assume i: "ddiv (dadd (dadd (Val a) (Val b)) (Val c)) (Val 2) = PInf"
    have "heron_radicand t = dmul (dmul (dmul PInf (dsub PInf (Val a))) (dsub PInf (Val b)))
             (dsub PInf (Val c))"
      by (simp only: heron_radicand_def Let_def P i s)
    then have h: "heron_radicand t = PInf" by simp
    show ?thesis unfolding Let_def P i by (simp add: h Triangle_area_def)
  next
    fix r
    assume i: "ddiv (dadd (dadd (Val a) (Val b)) (Val c)) (Val 2) = Val r"
      and r: "exact r" "a \<le> r" "b \<le> r" "c \<le> r"
    have h: "heron_radicand t =
        dmul (dmul (dmul (Val r) (dsub (Val r) (Val a))) (dsub (Val r) (Val b)))
             (dsub (Val r) (Val c))"
      by (simp only: heron_radicand_def Let_def P i s)
    have le: "dle (Val a) (Val r)" "dle (Val b) (Val r)" "dle (Val c) (Val r)"
      using r by simp_all
    from heron_finite_cases [OF r(1) pos(1) r(2) pos(2) r(3) pos(3) r(4)]
    have "dle (Val 0) (heron_radicand t) \<and> dle (Val 0) (Triangle_area t) \<or>
          heron_radicand t = NaN \<and>
          (dmul (Val r) (dsub (Val r) (Val a)) = PInf \<and> dsub (Val r) (Val b) = Val 0 \<or>
           dmul (dmul (Val r) (dsub (Val r) (Val a))) (dsub (Val r) (Val b)) = PInf \<and>
           dsub (Val r) (Val c) = Val 0)"
      unfolding h [symmetric] Triangle_area_def using dsqrt_nonneg by blast
    with le show ?thesis unfolding Let_def P i by (intro conjI)
  qed
qed

text \<open>
  The triangle with sides \<open>2 ^ 512\<close>, \<open>2 ^ 513\<close> and \<open>2 ^ 512 + 2 ^ 461\<close>. Its perimeter
  \<open>2 ^ 514 + 2 ^ 461\<close> rounds to \<open>2 ^ 514\<close>, so \<open>s\<close> is \<open>2 ^ 513\<close> and \<open>s - b\<close> is \<open>0\<close>, while
  \<open>s * (s - a)\<close> is \<open>2 ^ 1025\<close> and overflows to \<open>+\<infinity>\<close>.
\<close>

lemma overflow_triangle:
  "exact (2 ^ 512) \<and> exact (2 ^ 513) \<and> exact (2 ^ 512 + 2 ^ 461) \<and>
   Triangle_isValid \<lparr>side_a = Val (2 ^ 512), side_b = Val (2 ^ 513), side_c = Val (2 ^ 512 + 2 ^ 461)\<rparr> \<and>
   ddiv (Triangle_perimeter
          \<lparr>side_a = Val (2 ^ 512), side_b = Val (2 ^ 513), side_c = Val (2 ^ 512 + 2 ^ 461)\<rparr>)
     (Val 2) = Val (2 ^ 513) \<and>
   dmul (Val (2 ^ 513)) (dsub (Val (2 ^ 513)) (Val (2 ^ 512))) = PInf \<and>
   dsub (Val (2 ^ 513)) (Val (2 ^ 513)) = Val 0 \<and>
   heron_radicand \<lparr>side_a = Val (2 ^ 512), side_b = Val (2 ^ 513), side_c = Val (2 ^ 512 + 2 ^ 461)\<rparr> = NaN"
  using rnd64_representable [of 1 512] rnd64_representable [of 1 513]
    rnd64_representable [of "2 ^ 51 + 1" 461] rnd64_representable [of 3 512]
    rnd64_representable [of "3 * 2 ^ 51 + 1" 461] rnd64_representable [of "2 ^ 52 + 1" 461]
    rnd64_representable [of "2 ^ 51 - 1" 461]
    rnd64_tie_514 rnd64_overflow_1025
  by (simp add: exact_def Let_def Triangle_isValid_def
      satisfiesTriangleInequality_def heron_radicand_def Triangle_perimeter_def)

text \<open>
  C4, as the specification words it, fails in binary64 arithmetic. The triangle with
  sides \<open>2 ^ 512\<close>, \<open>2 ^ 513\<close> and \<open>2 ^ 512 + 2 ^ 461\<close> is accepted by the constructor and
  valid. Its perimeter \<open>2 ^ 514 + 2 ^ 461\<close> rounds to \<open>2 ^ 514\<close>, so \<open>s\<close> is \<open>2 ^ 513\<close> and
  \<open>s - b\<close> is \<open>0\<close>, while \<open>s * (s - a)\<close> is \<open>2 ^ 1025\<close> and overflows to \<open>+\<infinity>\<close>. The radicand
  is \<open>\<infinity> * 0\<close>, which is \<open>NaN\<close>, and so is the area.
\<close>

theorem heron_radicand_counterexample:
  "exact (2 ^ 512) \<and> exact (2 ^ 513) \<and> exact (2 ^ 512 + 2 ^ 461) \<and>
   Triangle_new (Val (2 ^ 512)) (Val (2 ^ 513)) (Val (2 ^ 512 + 2 ^ 461))
     = Inr \<lparr>side_a = Val (2 ^ 512), side_b = Val (2 ^ 513), side_c = Val (2 ^ 512 + 2 ^ 461)\<rparr> \<and>
   Triangle_isValid \<lparr>side_a = Val (2 ^ 512), side_b = Val (2 ^ 513), side_c = Val (2 ^ 512 + 2 ^ 461)\<rparr> \<and>
   heron_radicand \<lparr>side_a = Val (2 ^ 512), side_b = Val (2 ^ 513), side_c = Val (2 ^ 512 + 2 ^ 461)\<rparr> = NaN \<and>
   Triangle_area \<lparr>side_a = Val (2 ^ 512), side_b = Val (2 ^ 513), side_c = Val (2 ^ 512 + 2 ^ 461)\<rparr> = NaN"
  using rnd64_representable [of 1 512] rnd64_representable [of 1 513]
    rnd64_representable [of "2 ^ 51 + 1" 461] rnd64_representable [of 3 512]
    rnd64_representable [of "3 * 2 ^ 51 + 1" 461] rnd64_representable [of "2 ^ 52 + 1" 461]
    rnd64_representable [of "2 ^ 51 - 1" 461]
    rnd64_tie_514 rnd64_overflow_1025
  by (simp add: exact_def Triangle_new_def Let_def Triangle_isValid_def
      satisfiesTriangleInequality_def heron_radicand_def Triangle_perimeter_def Triangle_area_def)

text \<open>
  C4, amended. Every valid triangle has finite sides \<open>a\<close>, \<open>b\<close>, \<open>c\<close>. When they are binary64
  numbers, as every \<^verbatim>\<open>double\<close> of the program is, the semi-perimeter \<open>s\<close> that \<open>area\<close>
  computes is not below any side, whatever the two additions and the halving round to.
  The argument of the square root is then either not negative (a number \<open>\<ge> 0\<close> or
  \<open>+\<infinity>\<close>), and so is \<open>area\<close>; or it is \<open>NaN\<close>, and this only when a partial product
  \<open>s(s-a)\<close> or \<open>s(s-a)(s-b)\<close> has overflowed to \<open>+\<infinity>\<close> and the next factor, \<open>s-b\<close> or \<open>s-c\<close>,
  is \<open>0\<close>. It is never a negative number.

  If moreover no operation of the validity test and of the radicand rounds or overflows
  on the sides (\<open>heron_exact\<close>), then the argument of the square root is the number
  \<open>s(s-a)(s-b)(s-c)\<close> with \<open>s = (a+b+c)/2\<close>, this number is not negative, and \<open>area\<close> is its
  rounded square root.
\<close>

theorem heron_radicand_nonneg_or_overflow:
  assumes "Triangle_isValid t"
  shows "\<exists>a b c. sides t = (Val a, Val b, Val c) \<and>
     (exact a \<and> exact b \<and> exact c \<longrightarrow>
        (let s = ddiv (Triangle_perimeter t) (Val 2);
             p = dmul s (dsub s (Val a));
             q = dmul p (dsub s (Val b)) in
         dle (Val a) s \<and> dle (Val b) s \<and> dle (Val c) s \<and>
         (dle (Val 0) (heron_radicand t) \<and> dle (Val 0) (Triangle_area t) \<or>
          heron_radicand t = NaN \<and>
          (p = PInf \<and> dsub s (Val b) = Val 0 \<or> q = PInf \<and> dsub s (Val c) = Val 0)))) \<and>
     (heron_exact a b c \<longrightarrow>
        heron_radicand t =
          Val ((a + b + c) / 2 * ((a + b + c) / 2 - a) * ((a + b + c) / 2 - b) * ((a + b + c) / 2 - c)) \<and>
        0 \<le> (a + b + c) / 2 * ((a + b + c) / 2 - a) * ((a + b + c) / 2 - b) * ((a + b + c) / 2 - c) \<and>
        Triangle_area t =
          rnd64 (sqrt ((a + b + c) / 2 * ((a + b + c) / 2 - a) * ((a + b + c) / 2 - b) *
                       ((a + b + c) / 2 - c))))"
proof -
  from Triangle_isValid_sides [OF assms] obtain a b c where
    s: "side_a t = Val a" "side_b t = Val b" "side_c t = Val c" and
    v: "dlt (Val c) (rnd64 (a + b))" "dlt (Val a) (rnd64 (b + c))" "dlt (Val b) (rnd64 (a + c))"
    by blast
  let ?x = "(a + b + c) / 2 * ((a + b + c) / 2 - a) * ((a + b + c) / 2 - b) * ((a + b + c) / 2 - c)"
  have sd: "sides t = (Val a, Val b, Val c)" using s by (simp add: sides_def)
  have A: "exact a \<and> exact b \<and> exact c \<longrightarrow>
        (let s = ddiv (Triangle_perimeter t) (Val 2);
             p = dmul s (dsub s (Val a));
             q = dmul p (dsub s (Val b)) in
         dle (Val a) s \<and> dle (Val b) s \<and> dle (Val c) s \<and>
         (dle (Val 0) (heron_radicand t) \<and> dle (Val 0) (Triangle_area t) \<or>
          heron_radicand t = NaN \<and>
          (p = PInf \<and> dsub s (Val b) = Val 0 \<or> q = PInf \<and> dsub s (Val c) = Val 0)))"
  proof (intro impI, elim conjE)
    assume "exact a" "exact b" "exact c"
    then show "let s = ddiv (Triangle_perimeter t) (Val 2);
             p = dmul s (dsub s (Val a));
             q = dmul p (dsub s (Val b)) in
         dle (Val a) s \<and> dle (Val b) s \<and> dle (Val c) s \<and>
         (dle (Val 0) (heron_radicand t) \<and> dle (Val 0) (Triangle_area t) \<or>
          heron_radicand t = NaN \<and>
          (p = PInf \<and> dsub s (Val b) = Val 0 \<or> q = PInf \<and> dsub s (Val c) = Val 0))"
      by (rule heron_radicand_cases [OF assms s])
  qed
  have B: "heron_exact a b c \<longrightarrow>
      heron_radicand t = Val ?x \<and> 0 \<le> ?x \<and> Triangle_area t = rnd64 (sqrt ?x)"
  proof
    assume e: "heron_exact a b c"
    then have "rnd64 (a + b) = Val (a + b)" "rnd64 (b + c) = Val (b + c)"
      "rnd64 (a + c) = Val (a + c)"
      by (simp_all add: heron_exact_def exact_def Let_def)
    with v have ineq: "c < a + b" "a < b + c" "b < a + c" by simp_all
    have r: "heron_radicand t = Val ?x" by (rule heron_radicand_exact [OF s e])
    have nn: "0 \<le> ?x" by (rule heron_product_nonneg [OF ineq])
    have "Triangle_area t = rnd64 (sqrt ?x)"
      using nn by (simp only: Triangle_area_def r dsqrt.simps) simp
    with r nn show "heron_radicand t = Val ?x \<and> 0 \<le> ?x \<and> Triangle_area t = rnd64 (sqrt ?x)"
      by (intro conjI)
  qed
  show ?thesis
    by (rule exI [of _ a], rule exI [of _ b], rule exI [of _ c]) (intro conjI sd A B)
qed

theorem heron_radicand_nonneg_or_overflow_witness:
  "Triangle_isValid \<lparr>side_a = Val 3, side_b = Val 4, side_c = Val 5\<rparr> \<and>
   exact 3 \<and> exact 4 \<and> exact 5 \<and> heron_exact 3 4 5 \<and>
   dle (Val 5) (ddiv (Triangle_perimeter \<lparr>side_a = Val 3, side_b = Val 4, side_c = Val 5\<rparr>) (Val 2)) \<and>
   heron_radicand \<lparr>side_a = Val 3, side_b = Val 4, side_c = Val 5\<rparr> = Val 36 \<and>
   Triangle_area \<lparr>side_a = Val 3, side_b = Val 4, side_c = Val 5\<rparr> = Val 6 \<and>
   Triangle_isValid \<lparr>side_a = Val (2 ^ 512), side_b = Val (2 ^ 513), side_c = Val (2 ^ 512 + 2 ^ 461)\<rparr> \<and>
   exact (2 ^ 512) \<and> exact (2 ^ 513) \<and> exact (2 ^ 512 + 2 ^ 461) \<and>
   dle (Val (2 ^ 513))
     (ddiv (Triangle_perimeter
             \<lparr>side_a = Val (2 ^ 512), side_b = Val (2 ^ 513), side_c = Val (2 ^ 512 + 2 ^ 461)\<rparr>)
        (Val 2)) \<and>
   heron_radicand \<lparr>side_a = Val (2 ^ 512), side_b = Val (2 ^ 513), side_c = Val (2 ^ 512 + 2 ^ 461)\<rparr> = NaN \<and>
   dmul (Val (2 ^ 513)) (dsub (Val (2 ^ 513)) (Val (2 ^ 512))) = PInf \<and>
   dsub (Val (2 ^ 513)) (Val (2 ^ 513)) = Val 0"
proof -
  let ?T = "\<lparr>side_a = Val 3, side_b = Val 4, side_c = Val 5\<rparr>"
  let ?R = "\<lparr>side_a = Val (2 ^ 512), side_b = Val (2 ^ 513), side_c = Val (2 ^ 512 + 2 ^ 461)\<rparr>"
  have v: "Triangle_isValid ?T"
    by (simp add: Triangle_isValid_def satisfiesTriangleInequality_def)
  have x: "exact 3" "exact 4" "exact 5" by (simp_all add: exact_def)
  have e: "heron_exact 3 4 5"
    by (simp add: heron_exact_def exact_def)
  from heron_radicand_nonneg_or_overflow [OF v] obtain a b c where
    s: "sides ?T = (Val a, Val b, Val c)" and
    g: "exact a \<and> exact b \<and> exact c \<longrightarrow>
        (let s = ddiv (Triangle_perimeter ?T) (Val 2);
             p = dmul s (dsub s (Val a));
             q = dmul p (dsub s (Val b)) in
         dle (Val a) s \<and> dle (Val b) s \<and> dle (Val c) s \<and>
         (dle (Val 0) (heron_radicand ?T) \<and> dle (Val 0) (Triangle_area ?T) \<or>
          heron_radicand ?T = NaN \<and>
          (p = PInf \<and> dsub s (Val b) = Val 0 \<or> q = PInf \<and> dsub s (Val c) = Val 0)))" and
    h: "heron_exact a b c \<longrightarrow>
        heron_radicand ?T =
          Val ((a + b + c) / 2 * ((a + b + c) / 2 - a) * ((a + b + c) / 2 - b) * ((a + b + c) / 2 - c)) \<and>
        0 \<le> (a + b + c) / 2 * ((a + b + c) / 2 - a) * ((a + b + c) / 2 - b) * ((a + b + c) / 2 - c) \<and>
        Triangle_area ?T =
          rnd64 (sqrt ((a + b + c) / 2 * ((a + b + c) / 2 - a) * ((a + b + c) / 2 - b) *
                       ((a + b + c) / 2 - c)))"
    by (elim exE conjE)
  from s have abc: "a = 3" "b = 4" "c = 5" by (simp_all add: sides_def)
  from g x have "let s = ddiv (Triangle_perimeter ?T) (Val 2) in
      dle (Val 3) s \<and> dle (Val 4) s \<and> dle (Val 5) s"
    unfolding abc Let_def by (intro conjI) (elim impE conjE, intro conjI, assumption+)+
  then have le: "dle (Val 5) (ddiv (Triangle_perimeter ?T) (Val 2))"
    unfolding Let_def by (elim conjE)
  from h e have r: "heron_radicand ?T = Val 36" and ar: "Triangle_area ?T = Val 6"
    unfolding abc by (simp_all add: sqrt_36)
  note o = overflow_triangle
  have v': "Triangle_isValid ?R" by (rule o [THEN conjunct2, THEN conjunct2, THEN conjunct2, THEN conjunct1])
  have x': "exact (2 ^ 512)" "exact (2 ^ 513)" "exact (2 ^ 512 + 2 ^ 461)"
    by (rule o [THEN conjunct1], rule o [THEN conjunct2, THEN conjunct1],
        rule o [THEN conjunct2, THEN conjunct2, THEN conjunct1])
  from heron_radicand_nonneg_or_overflow [OF v'] obtain a' b' c' where
    s': "sides ?R = (Val a', Val b', Val c')" and
    g': "exact a' \<and> exact b' \<and> exact c' \<longrightarrow>
        (let s = ddiv (Triangle_perimeter ?R) (Val 2);
             p = dmul s (dsub s (Val a'));
             q = dmul p (dsub s (Val b')) in
         dle (Val a') s \<and> dle (Val b') s \<and> dle (Val c') s \<and>
         (dle (Val 0) (heron_radicand ?R) \<and> dle (Val 0) (Triangle_area ?R) \<or>
          heron_radicand ?R = NaN \<and>
          (p = PInf \<and> dsub s (Val b') = Val 0 \<or> q = PInf \<and> dsub s (Val c') = Val 0)))"
    by (elim exE conjE)
  from s' have abc': "a' = 2 ^ 512" "b' = 2 ^ 513" "c' = 2 ^ 512 + 2 ^ 461"
    by (simp_all add: sides_def)
  from g' x' have "let s = ddiv (Triangle_perimeter ?R) (Val 2) in
      dle (Val (2 ^ 512)) s \<and> dle (Val (2 ^ 513)) s \<and> dle (Val (2 ^ 512 + 2 ^ 461)) s"
    unfolding abc' Let_def by (intro conjI) (elim impE conjE, intro conjI, assumption+)+
  then have le': "dle (Val (2 ^ 513)) (ddiv (Triangle_perimeter ?R) (Val 2))"
    unfolding Let_def by (elim conjE)
  note rest = o [THEN conjunct2, THEN conjunct2, THEN conjunct2, THEN conjunct2, THEN conjunct2]
  have n: "heron_radicand ?R = NaN" by (rule rest [THEN conjunct2, THEN conjunct2])
  have p: "dmul (Val (2 ^ 513)) (dsub (Val (2 ^ 513)) (Val (2 ^ 512))) = PInf"
    by (rule rest [THEN conjunct1])
  have z: "dsub (Val (2 ^ 513)) (Val (2 ^ 513)) = Val 0"
    by (rule rest [THEN conjunct2, THEN conjunct1])
  from v x e le r ar v' x' le' n p z show ?thesis by (intro conjI)
qed

subsection \<open>Classification of triangles\<close>

lemma isEquilateral_isIsosceles: "isEquilateral t \<Longrightarrow> isIsosceles t"
  by (simp add: isEquilateral_def isIsosceles_def)

lemma spec_all_sides_equal_isEquilateral:
  "spec_all_sides_equal_within_epsilon t \<Longrightarrow> isEquilateral t"
  by (simp add: spec_all_sides_equal_within_epsilon_def isEquilateral_def)

lemma spec_all_sides_equal_isIsosceles:
  "spec_all_sides_equal_within_epsilon t \<Longrightarrow> isIsosceles t"
  by (simp add: spec_all_sides_equal_within_epsilon_def isIsosceles_def)

text \<open>
  C5 says that \<open>isEquilateral\<close> is true exactly when all three sides are equal within
  the tolerance. The code compares \<open>a\<close> with \<open>b\<close> and \<open>b\<close> with \<open>c\<close>, and never \<open>a\<close> with \<open>c\<close>,
  which \<open>isIsosceles\<close> does compare. The code at the input
  \<^verbatim>\<open>Triangle(1, 1 + 2^-30, 1 + 2^-29)\<close>, three binary64 numbers: the triangle is
  constructed and valid, \<open>isEquilateral\<close> is true and the name is "Equilateral
  Triangle", although \<open>|a - c| = 2^-29\<close> is not below the tolerance \<^verbatim>\<open>1e-9\<close>.
\<close>

theorem isEquilateral_skips_a_c:
  "exact 1 \<and> exact (1 + 1 / 2 ^ 30) \<and> exact (1 + 1 / 2 ^ 29) \<and>
   Triangle_new (Val 1) (Val (1 + 1 / 2 ^ 30)) (Val (1 + 1 / 2 ^ 29))
     = Inr \<lparr>side_a = Val 1, side_b = Val (1 + 1 / 2 ^ 30), side_c = Val (1 + 1 / 2 ^ 29)\<rparr> \<and>
   isValid (ATriangle \<lparr>side_a = Val 1, side_b = Val (1 + 1 / 2 ^ 30), side_c = Val (1 + 1 / 2 ^ 29)\<rparr>) \<and>
   isEquilateral \<lparr>side_a = Val 1, side_b = Val (1 + 1 / 2 ^ 30), side_c = Val (1 + 1 / 2 ^ 29)\<rparr> \<and>
   name (ATriangle \<lparr>side_a = Val 1, side_b = Val (1 + 1 / 2 ^ 30), side_c = Val (1 + 1 / 2 ^ 29)\<rparr>)
     = ''Equilateral Triangle'' \<and>
   \<not> dlt (dabs (dsub (Val 1) (Val (1 + 1 / 2 ^ 29)))) epsilon \<and>
   \<not> spec_all_sides_equal_within_epsilon
       \<lparr>side_a = Val 1, side_b = Val (1 + 1 / 2 ^ 30), side_c = Val (1 + 1 / 2 ^ 29)\<rparr>"
  using rnd64_representable [of "2 ^ 30 + 1" "- 30"] rnd64_representable [of "2 ^ 29 + 1" "- 29"]
    rnd64_representable [of "2 ^ 31 + 1" "- 30"] rnd64_representable [of "2 ^ 31 + 3" "- 30"]
    rnd64_representable [of "2 ^ 30 + 1" "- 29"]
    rnd64_representable [of "- 1" "- 30"] rnd64_representable [of "- 1" "- 29"]
  by (simp add: exact_def Triangle_new_def Let_def Triangle_isValid_def
      satisfiesTriangleInequality_def isEquilateral_def Triangle_name_def
      spec_all_sides_equal_within_epsilon_def epsilon_value)

subsection \<open>Area and perimeter\<close>
















subsection \<open>Insertion\<close>

text \<open>
  C7. \<open>addShape\<close> appends the shape at the end of the sequence exactly when the pointer
  is not null and the shape satisfies \<open>isValid\<close>; otherwise the calculator is unchanged.
  No operation of the calculator has an error among its results: \<open>addShape\<close>,
  \<open>shapeCount\<close>, \<open>totalArea\<close>, \<open>totalPerimeter\<close> and \<open>clear\<close> return a value for every
  argument, and \<open>getShape\<close> returns an option.
\<close>

theorem addShape_appends_iff_present_and_valid:
  "((\<exists>s. shape = Some s \<and> isValid s) \<longrightarrow>
      (\<exists>s. shape = Some s \<and> shapes (addShape g shape) = shapes g @ [s])) \<and>
   (\<not> (\<exists>s. shape = Some s \<and> isValid s) \<longrightarrow> addShape g shape = g) \<and>
   (shapes (addShape g shape) \<noteq> shapes g \<longleftrightarrow> (\<exists>s. shape = Some s \<and> isValid s))"
  by (cases shape) (simp_all add: addShape_def)

theorem addShape_appends_iff_present_and_valid_witness:
  "isValid (ARectangle \<lparr>width = Val 3, height = Val 4\<rparr>) \<and>
   shapes (addShape \<lparr>shapes = [ACircle \<lparr>radius = Val 2\<rparr>]\<rparr>
             (Some (ARectangle \<lparr>width = Val 3, height = Val 4\<rparr>)))
     = [ACircle \<lparr>radius = Val 2\<rparr>, ARectangle \<lparr>width = Val 3, height = Val 4\<rparr>] \<and>
   addShape \<lparr>shapes = [ACircle \<lparr>radius = Val 2\<rparr>]\<rparr> None = \<lparr>shapes = [ACircle \<lparr>radius = Val 2\<rparr>]\<rparr> \<and>
   \<not> isValid (ACircle \<lparr>radius = NaN\<rparr>) \<and>
   addShape \<lparr>shapes = [ACircle \<lparr>radius = Val 2\<rparr>]\<rparr> (Some (ACircle \<lparr>radius = NaN\<rparr>))
     = \<lparr>shapes = [ACircle \<lparr>radius = Val 2\<rparr>]\<rparr>"
proof -
  have v: "isValid (ARectangle \<lparr>width = Val 3, height = Val 4\<rparr>)"
    by (simp add: Rectangle_isValid_def)
  have n: "\<not> isValid (ACircle \<lparr>radius = NaN\<rparr>)"
    by (simp add: Circle_isValid_def)
  have 1: "shapes (addShape \<lparr>shapes = [ACircle \<lparr>radius = Val 2\<rparr>]\<rparr>
             (Some (ARectangle \<lparr>width = Val 3, height = Val 4\<rparr>)))
     = [ACircle \<lparr>radius = Val 2\<rparr>, ARectangle \<lparr>width = Val 3, height = Val 4\<rparr>]"
    using addShape_appends_iff_present_and_valid
      [of "Some (ARectangle \<lparr>width = Val 3, height = Val 4\<rparr>)"
          "\<lparr>shapes = [ACircle \<lparr>radius = Val 2\<rparr>]\<rparr>"] v
    by simp
  have 2: "addShape \<lparr>shapes = [ACircle \<lparr>radius = Val 2\<rparr>]\<rparr> None
     = \<lparr>shapes = [ACircle \<lparr>radius = Val 2\<rparr>]\<rparr>"
    using addShape_appends_iff_present_and_valid [of None "\<lparr>shapes = [ACircle \<lparr>radius = Val 2\<rparr>]\<rparr>"]
    by simp
  have 3: "addShape \<lparr>shapes = [ACircle \<lparr>radius = Val 2\<rparr>]\<rparr> (Some (ACircle \<lparr>radius = NaN\<rparr>))
     = \<lparr>shapes = [ACircle \<lparr>radius = Val 2\<rparr>]\<rparr>"
    using addShape_appends_iff_present_and_valid
      [of "Some (ACircle \<lparr>radius = NaN\<rparr>)" "\<lparr>shapes = [ACircle \<lparr>radius = Val 2\<rparr>]\<rparr>"] n
    by simp
  from v 1 2 n 3 show ?thesis by (intro conjI)
qed

subsection \<open>Totals\<close>

lemma sum_first_foldl:
  "n \<le> length xs \<Longrightarrow> sum_first n xs = foldl dadd (Val 0) (take n xs)"
proof (induction n)
  case 0
  show ?case by simp
next
  case (Suc n)
  then have ih: "sum_first n xs = foldl dadd (Val 0) (take n xs)" and n: "n < length xs"
    by simp_all
  have "foldl dadd (Val 0) (take (Suc n) xs) = foldl dadd (Val 0) (take n xs @ [xs ! n])"
    using n by (simp only: take_Suc_conv_app_nth)
  also have "\<dots> = dadd (foldl dadd (Val 0) (take n xs)) (xs ! n)"
    by (simp only: foldl_append foldl_Cons foldl_Nil)
  also have "\<dots> = sum_first (Suc n) xs"
    by (simp only: sum_first.simps ih)
  finally show ?case by (rule sym)
qed

lemma totalArea_sum: "totalArea g = spec_sum_in_order (map area (shapes g))"
  using sum_first_foldl [of "length (map area (shapes g))" "map area (shapes g)"]
  by (simp add: totalArea_def spec_sum_in_order_def foldl_map)

lemma totalPerimeter_sum: "totalPerimeter g = spec_sum_in_order (map perimeter (shapes g))"
  using sum_first_foldl [of "length (map perimeter (shapes g))" "map perimeter (shapes g)"]
  by (simp add: totalPerimeter_def spec_sum_in_order_def foldl_map)

text \<open>
  The order of the terms matters, since the addition of doubles is not associative:
  adding \<open>1\<close> twice to \<open>2 ^ 53\<close> leaves \<open>2 ^ 53\<close>, and adding \<open>1 + 1\<close> to it gives \<open>2 ^ 53 + 2\<close>.
\<close>

lemma dadd_not_associative:
  "dadd (dadd (Val (2 ^ 53)) (Val 1)) (Val 1) = Val (2 ^ 53) \<and>
   dadd (Val (2 ^ 53)) (dadd (Val 1) (Val 1)) = Val (2 ^ 53 + 2)"
  using rnd64_tie_53 rnd64_representable [of "2 ^ 52 + 1" 1] by simp

text \<open>
  C8. For every collection, \<open>totalArea\<close> is the sum of \<open>area\<close> over the stored shapes taken
  in insertion order and \<open>totalPerimeter\<close> the sum of \<open>perimeter\<close>; for an empty collection
  both are \<open>0\<close> and \<open>shapeCount\<close> is \<open>0\<close>. A new calculator and a cleared one are empty.
\<close>

theorem totals_are_sums_in_insertion_order:
  "totalArea g = spec_sum_in_order (map area (shapes g)) \<and>
   totalPerimeter g = spec_sum_in_order (map perimeter (shapes g)) \<and>
   (shapes g = [] \<longrightarrow> totalArea g = Val 0 \<and> totalPerimeter g = Val 0 \<and> shapeCount g = 0) \<and>
   shapes empty_calculator = [] \<and> shapes (clear g) = []"
proof -
  have "shapes g = [] \<longrightarrow> totalArea g = Val 0 \<and> totalPerimeter g = Val 0 \<and> shapeCount g = 0"
    by (simp add: totalArea_def totalPerimeter_def shapeCount_def)
  moreover have "shapes empty_calculator = []" by (simp add: empty_calculator_def)
  moreover have "shapes (clear g) = []" by (simp add: clear_def)
  ultimately show ?thesis using totalArea_sum [of g] totalPerimeter_sum [of g]
    by (intro conjI)
qed

theorem totals_are_sums_in_insertion_order_witness:
  "shapes empty_calculator = [] \<and>
   totalArea empty_calculator = Val 0 \<and> totalPerimeter empty_calculator = Val 0 \<and>
   shapeCount empty_calculator = 0 \<and>
   totalArea \<lparr>shapes = [ARectangle \<lparr>width = Val 3, height = Val 4\<rparr>,
                        ATriangle \<lparr>side_a = Val 3, side_b = Val 4, side_c = Val 5\<rparr>]\<rparr> = Val 18 \<and>
   totalPerimeter \<lparr>shapes = [ARectangle \<lparr>width = Val 3, height = Val 4\<rparr>,
                        ATriangle \<lparr>side_a = Val 3, side_b = Val 4, side_c = Val 5\<rparr>]\<rparr> = Val 26 \<and>
   totalPerimeter \<lparr>shapes = [ARectangle \<lparr>width = Val (2 ^ 51), height = Val (2 ^ 51)\<rparr>,
                        ARectangle \<lparr>width = Val (1 / 4), height = Val (1 / 4)\<rparr>,
                        ARectangle \<lparr>width = Val (1 / 4), height = Val (1 / 4)\<rparr>]\<rparr> = Val (2 ^ 53) \<and>
   totalPerimeter \<lparr>shapes = [ARectangle \<lparr>width = Val (1 / 4), height = Val (1 / 4)\<rparr>,
                        ARectangle \<lparr>width = Val (1 / 4), height = Val (1 / 4)\<rparr>,
                        ARectangle \<lparr>width = Val (2 ^ 51), height = Val (2 ^ 51)\<rparr>]\<rparr> = Val (2 ^ 53 + 2)"
proof -
  note e = totals_are_sums_in_insertion_order [of empty_calculator]
  note g = totals_are_sums_in_insertion_order
    [of "\<lparr>shapes = [ARectangle \<lparr>width = Val 3, height = Val 4\<rparr>,
                    ATriangle \<lparr>side_a = Val 3, side_b = Val 4, side_c = Val 5\<rparr>]\<rparr>"]
  note f = totals_are_sums_in_insertion_order
    [of "\<lparr>shapes = [ARectangle \<lparr>width = Val (2 ^ 51), height = Val (2 ^ 51)\<rparr>,
                    ARectangle \<lparr>width = Val (1 / 4), height = Val (1 / 4)\<rparr>,
                    ARectangle \<lparr>width = Val (1 / 4), height = Val (1 / 4)\<rparr>]\<rparr>"]
  note b = totals_are_sums_in_insertion_order
    [of "\<lparr>shapes = [ARectangle \<lparr>width = Val (1 / 4), height = Val (1 / 4)\<rparr>,
                    ARectangle \<lparr>width = Val (1 / 4), height = Val (1 / 4)\<rparr>,
                    ARectangle \<lparr>width = Val (2 ^ 51), height = Val (2 ^ 51)\<rparr>]\<rparr>"]
  have 0: "shapes empty_calculator = []" using e by blast
  have 1: "totalArea empty_calculator = Val 0 \<and> totalPerimeter empty_calculator = Val 0 \<and>
     shapeCount empty_calculator = 0"
    using e 0 by blast
  have 2: "totalArea \<lparr>shapes = [ARectangle \<lparr>width = Val 3, height = Val 4\<rparr>,
                        ATriangle \<lparr>side_a = Val 3, side_b = Val 4, side_c = Val 5\<rparr>]\<rparr> = Val 18"
    using g [THEN conjunct1]
    by (simp add: spec_sum_in_order_def Rectangle_area_def Triangle_area_def
        heron_radicand_def Triangle_perimeter_def sqrt_36)
  have 3: "totalPerimeter \<lparr>shapes = [ARectangle \<lparr>width = Val 3, height = Val 4\<rparr>,
                        ATriangle \<lparr>side_a = Val 3, side_b = Val 4, side_c = Val 5\<rparr>]\<rparr> = Val 26"
    using g [THEN conjunct2, THEN conjunct1]
    by (simp add: spec_sum_in_order_def Rectangle_perimeter_def Triangle_perimeter_def)
  have r: "rnd64 (1 / 2) = Val (1 / 2)" "rnd64 (2 ^ 52) = Val (2 ^ 52)"
    "rnd64 (2 ^ 53) = Val (2 ^ 53)" "rnd64 (2 ^ 53 + 2) = Val (2 ^ 53 + 2)"
    using rnd64_representable [of 1 "- 1"] rnd64_representable [of 1 52]
      rnd64_representable [of 1 53] rnd64_representable [of "2 ^ 52 + 1" 1]
    by simp_all
  have 4: "totalPerimeter \<lparr>shapes = [ARectangle \<lparr>width = Val (2 ^ 51), height = Val (2 ^ 51)\<rparr>,
                        ARectangle \<lparr>width = Val (1 / 4), height = Val (1 / 4)\<rparr>,
                        ARectangle \<lparr>width = Val (1 / 4), height = Val (1 / 4)\<rparr>]\<rparr> = Val (2 ^ 53)"
    using f [THEN conjunct2, THEN conjunct1] r rnd64_tie_53
    by (simp add: spec_sum_in_order_def Rectangle_perimeter_def)
  have 5: "totalPerimeter \<lparr>shapes = [ARectangle \<lparr>width = Val (1 / 4), height = Val (1 / 4)\<rparr>,
                        ARectangle \<lparr>width = Val (1 / 4), height = Val (1 / 4)\<rparr>,
                        ARectangle \<lparr>width = Val (2 ^ 51), height = Val (2 ^ 51)\<rparr>]\<rparr> = Val (2 ^ 53 + 2)"
    using b [THEN conjunct2, THEN conjunct1] r
    by (simp add: spec_sum_in_order_def Rectangle_perimeter_def)
  from 0 1 2 3 4 5 show ?thesis by (intro conjI) (erule conjunct1 conjunct2 | assumption | erule conjunct2 [THEN conjunct1] conjunct2 [THEN conjunct2])+
qed

subsection \<open>Indexed lookup\<close>

text \<open>
  C9. For every collection and every index, \<open>getShape\<close> returns the shape stored at that
  zero-based position when the index is below \<open>shapeCount\<close>, and the absent result,
  which is a value and not an error, exactly when the index is outside that range.
\<close>

theorem getShape_in_range_iff:
  "(index < shapeCount g \<longrightarrow> getShape g index = Some (shapes g ! index)) \<and>
   (getShape g index = None \<longleftrightarrow> \<not> index < shapeCount g)"
  by (simp add: getShape_def shapeCount_def)

theorem getShape_in_range_iff_witness:
  "(1::nat) < shapeCount \<lparr>shapes = [ACircle \<lparr>radius = Val 1\<rparr>, ARectangle \<lparr>width = Val 2, height = Val 3\<rparr>]\<rparr> \<and>
   getShape \<lparr>shapes = [ACircle \<lparr>radius = Val 1\<rparr>, ARectangle \<lparr>width = Val 2, height = Val 3\<rparr>]\<rparr> 1
     = Some (ARectangle \<lparr>width = Val 2, height = Val 3\<rparr>) \<and>
   getShape \<lparr>shapes = [ACircle \<lparr>radius = Val 1\<rparr>, ARectangle \<lparr>width = Val 2, height = Val 3\<rparr>]\<rparr> 2 = None"
  using getShape_in_range_iff
    [of 1 "\<lparr>shapes = [ACircle \<lparr>radius = Val 1\<rparr>, ARectangle \<lparr>width = Val 2, height = Val 3\<rparr>]\<rparr>"]
    getShape_in_range_iff
    [of 2 "\<lparr>shapes = [ACircle \<lparr>radius = Val 1\<rparr>, ARectangle \<lparr>width = Val 2, height = Val 3\<rparr>]\<rparr>"]
  by (simp add: shapeCount_def)

subsection \<open>Insertion and the observables\<close>

lemma totalArea_append:
  "totalArea (g\<lparr>shapes := shapes g @ [s]\<rparr>) = dadd (totalArea g) (area s)"
  by (simp add: totalArea_def)

lemma totalPerimeter_append:
  "totalPerimeter (g\<lparr>shapes := shapes g @ [s]\<rparr>) = dadd (totalPerimeter g) (perimeter s)"
  by (simp add: totalPerimeter_def)

text \<open>
  C10. For every collection and every shape \<open>s\<close>: if \<open>s\<close> is present and valid, then
  after \<open>addShape\<close> the count is the old count plus one, \<open>totalArea\<close> is the old total
  plus \<open>area s\<close> and \<open>totalPerimeter\<close> the old total plus \<open>perimeter s\<close>; if \<open>s\<close> is absent
  or invalid, the three are unchanged.
\<close>

theorem addShape_count_and_totals:
  "(isValid s \<longrightarrow>
      shapeCount (addShape g (Some s)) = shapeCount g + 1 \<and>
      totalArea (addShape g (Some s)) = dadd (totalArea g) (area s) \<and>
      totalPerimeter (addShape g (Some s)) = dadd (totalPerimeter g) (perimeter s)) \<and>
   (\<not> isValid s \<longrightarrow>
      shapeCount (addShape g (Some s)) = shapeCount g \<and>
      totalArea (addShape g (Some s)) = totalArea g \<and>
      totalPerimeter (addShape g (Some s)) = totalPerimeter g) \<and>
   shapeCount (addShape g None) = shapeCount g \<and>
   totalArea (addShape g None) = totalArea g \<and>
   totalPerimeter (addShape g None) = totalPerimeter g"
proof -
  have valid: "isValid s \<longrightarrow>
      shapeCount (addShape g (Some s)) = shapeCount g + 1 \<and>
      totalArea (addShape g (Some s)) = dadd (totalArea g) (area s) \<and>
      totalPerimeter (addShape g (Some s)) = dadd (totalPerimeter g) (perimeter s)"
    by (simp add: addShape_def totalArea_append totalPerimeter_append shapeCount_def)
  have invalid: "\<not> isValid s \<longrightarrow>
      shapeCount (addShape g (Some s)) = shapeCount g \<and>
      totalArea (addShape g (Some s)) = totalArea g \<and>
      totalPerimeter (addShape g (Some s)) = totalPerimeter g"
    by (simp add: addShape_def)
  have absent: "addShape g None = g"
    by (simp add: addShape_def)
  from valid invalid show ?thesis by (simp only: absent)
qed

theorem addShape_count_and_totals_witness:
  "isValid (ATriangle \<lparr>side_a = Val 3, side_b = Val 4, side_c = Val 5\<rparr>) \<and>
   shapeCount (addShape \<lparr>shapes = [ARectangle \<lparr>width = Val 3, height = Val 4\<rparr>]\<rparr>
      (Some (ATriangle \<lparr>side_a = Val 3, side_b = Val 4, side_c = Val 5\<rparr>))) = 2 \<and>
   totalArea (addShape \<lparr>shapes = [ARectangle \<lparr>width = Val 3, height = Val 4\<rparr>]\<rparr>
      (Some (ATriangle \<lparr>side_a = Val 3, side_b = Val 4, side_c = Val 5\<rparr>))) = Val 18 \<and>
   totalPerimeter (addShape \<lparr>shapes = [ARectangle \<lparr>width = Val 3, height = Val 4\<rparr>]\<rparr>
      (Some (ATriangle \<lparr>side_a = Val 3, side_b = Val 4, side_c = Val 5\<rparr>))) = Val 26 \<and>
   \<not> isValid (ACircle \<lparr>radius = NaN\<rparr>) \<and>
   shapeCount (addShape \<lparr>shapes = [ARectangle \<lparr>width = Val 3, height = Val 4\<rparr>]\<rparr>
      (Some (ACircle \<lparr>radius = NaN\<rparr>))) = 1"
proof -
  have v: "isValid (ATriangle \<lparr>side_a = Val 3, side_b = Val 4, side_c = Val 5\<rparr>)"
    by (simp add: Triangle_isValid_def satisfiesTriangleInequality_def)
  have n: "\<not> isValid (ACircle \<lparr>radius = NaN\<rparr>)"
    by (simp add: Circle_isValid_def)
  note a = addShape_count_and_totals
    [of "ATriangle \<lparr>side_a = Val 3, side_b = Val 4, side_c = Val 5\<rparr>"
        "\<lparr>shapes = [ARectangle \<lparr>width = Val 3, height = Val 4\<rparr>]\<rparr>"]
  note b = addShape_count_and_totals
    [of "ACircle \<lparr>radius = NaN\<rparr>" "\<lparr>shapes = [ARectangle \<lparr>width = Val 3, height = Val 4\<rparr>]\<rparr>"]
  have 1: "shapeCount (addShape \<lparr>shapes = [ARectangle \<lparr>width = Val 3, height = Val 4\<rparr>]\<rparr>
      (Some (ATriangle \<lparr>side_a = Val 3, side_b = Val 4, side_c = Val 5\<rparr>))) = 2"
    using a v by (simp add: shapeCount_def)
  have 2: "totalArea (addShape \<lparr>shapes = [ARectangle \<lparr>width = Val 3, height = Val 4\<rparr>]\<rparr>
      (Some (ATriangle \<lparr>side_a = Val 3, side_b = Val 4, side_c = Val 5\<rparr>))) = Val 18"
    using a v by (simp add: totalArea_def Rectangle_area_def Triangle_area_def heron_radicand_def
        Triangle_perimeter_def sqrt_36)
  have 3: "totalPerimeter (addShape \<lparr>shapes = [ARectangle \<lparr>width = Val 3, height = Val 4\<rparr>]\<rparr>
      (Some (ATriangle \<lparr>side_a = Val 3, side_b = Val 4, side_c = Val 5\<rparr>))) = Val 26"
    using a v by (simp add: totalPerimeter_def Rectangle_perimeter_def Triangle_perimeter_def)
  have 4: "shapeCount (addShape \<lparr>shapes = [ARectangle \<lparr>width = Val 3, height = Val 4\<rparr>]\<rparr>
      (Some (ACircle \<lparr>radius = NaN\<rparr>))) = 1"
    using b n by (simp add: shapeCount_def)
  from v 1 2 3 n 4 show ?thesis by (intro conjI)
qed

end
